theory Spec2Isabelle
  imports Complex_Main "HOL-Library.Word" "HOL-Library.Finite_Map" "HOL-Library.Sublist"
begin

section \<open>JavaScript strings\<close>

text \<open>
  A JavaScript string is a sequence of UTF-16 code units. String literals of the source
  are ASCII and are written \<open>u ''...''\<close>; the characters that cannot stand inside an
  Isabelle string literal (the three quote characters) are written as code units.
\<close>

type_synonym code_unit = "16 word"
type_synonym jstring = "code_unit list"

definition u :: "string \<Rightarrow> jstring" where
  "u s = map (\<lambda>c. of_nat (of_char c)) s"

definition LF :: code_unit where "LF = 0x0A"
definition CR :: code_unit where "CR = 0x0D"

text \<open>
  The regular expression classes of \<^verbatim>\<open>run.ts\<close>: \<^verbatim>\<open>\d\<close> is \<^verbatim>\<open>[0-9]\<close>;
  \<^verbatim>\<open>\s\<close> is ECMAScript's WhiteSpace and LineTerminator (TAB, VT, FF, SP, NBSP, ZWNBSP,
  the Unicode space separators, and LF, CR, LS, PS), the same set that
  \<^verbatim>\<open>String.prototype.trim\<close> removes; \<^verbatim>\<open>.\<close> (without the \<^verbatim>\<open>s\<close> flag) is every code unit
  but the four line terminators.
\<close>

definition is_digit :: "code_unit \<Rightarrow> bool" where
  "is_digit c \<longleftrightarrow> 0x30 \<le> c \<and> c \<le> 0x39"

definition is_line_terminator :: "code_unit \<Rightarrow> bool" where
  "is_line_terminator c \<longleftrightarrow> c = 0x0A \<or> c = 0x0D \<or> c = 0x2028 \<or> c = 0x2029"

definition is_space :: "code_unit \<Rightarrow> bool" where
  "is_space c \<longleftrightarrow>
     c = 0x09 \<or> c = 0x0B \<or> c = 0x0C \<or> c = 0x20 \<or> c = 0xA0 \<or> c = 0xFEFF \<or>
     c = 0x1680 \<or> (0x2000 \<le> c \<and> c \<le> 0x200A) \<or> c = 0x202F \<or> c = 0x205F \<or> c = 0x3000 \<or>
     is_line_terminator c"

definition is_dot :: "code_unit \<Rightarrow> bool" where
  "is_dot c \<longleftrightarrow> \<not> is_line_terminator c"

text \<open>The class \<^verbatim>\<open>["'`]\<close>: the double quote, the single quote and the backtick.\<close>

definition is_quote :: "code_unit \<Rightarrow> bool" where
  "is_quote c \<longleftrightarrow> c = 0x22 \<or> c = 0x27 \<or> c = 0x60"

definition trim :: "jstring \<Rightarrow> jstring" where
  "trim s = rev (dropWhile is_space (rev (dropWhile is_space s)))"

text \<open>\<^verbatim>\<open>raw.replaceAll("\r\n", "\n")\<close>: every CR LF pair, left to right, becomes LF.\<close>

fun replaceAll_crlf :: "jstring \<Rightarrow> jstring" where
  "replaceAll_crlf (c # d # cs) =
     (if c = CR \<and> d = LF then LF # replaceAll_crlf cs else c # replaceAll_crlf (d # cs))"
| "replaceAll_crlf cs = cs"

text \<open>\<^verbatim>\<open>.split("\n")\<close>: the empty string gives one empty line.\<close>

fun split_lf :: "jstring \<Rightarrow> jstring list" where
  "split_lf [] = [[]]"
| "split_lf (c # cs) =
     (if c = LF then [] # split_lf cs
      else (case split_lf cs of l # ls \<Rightarrow> (c # l) # ls | [] \<Rightarrow> [[c]]))"

text \<open>\<^verbatim>\<open>xs.join("\n")\<close>.\<close>

fun join_lf :: "jstring list \<Rightarrow> jstring" where
  "join_lf [] = []"
| "join_lf [x] = x"
| "join_lf (x # y # ys) = x @ LF # join_lf (y # ys)"

text \<open>The decimal digits of a number, as a template literal prints \<^verbatim>\<open>${idx + 1}\<close>.\<close>

fun decimal :: "nat \<Rightarrow> jstring" where
  "decimal n = (if n < 10 then [0x30 + of_nat n] else decimal (n div 10) @ [0x30 + of_nat (n mod 10)])"

declare decimal.simps [simp del]

section \<open>The response normalizer (\<^verbatim>\<open>run.ts\<close>, lines 10 to 38)\<close>

text \<open>
  The tail \<^verbatim>\<open>(.+)\s*$\<close> of both line patterns. The group is greedy: it first takes every
  code unit up to the next line terminator and gives them back one at a time until the
  rest of the line is white space; \<open>n\<close> is the length the group is tried with.
\<close>

fun backtrack_content :: "nat \<Rightarrow> jstring \<Rightarrow> jstring option" where
  "backtrack_content 0 s = None"
| "backtrack_content (Suc n) s =
     (if list_all is_space (drop (Suc n) s) then Some (take (Suc n) s)
      else backtrack_content n s)"

definition match_content :: "jstring \<Rightarrow> jstring option" where
  "match_content s = backtrack_content (length (takeWhile is_dot s)) s"

text \<open>
  \<^verbatim>\<open>\s*(.+)\s*$\<close> and \<^verbatim>\<open>\s+(.+)\s*$\<close>: the white space before the group is greedy too and
  is given back one code unit at a time while the tail does not match; \<open>n\<close> is the number
  of code units it is tried with, and \<open>one\<close> says that at least one is required.
\<close>

fun backtrack_spaces :: "bool \<Rightarrow> nat \<Rightarrow> jstring \<Rightarrow> jstring option" where
  "backtrack_spaces one 0 s = (if one then None else match_content s)"
| "backtrack_spaces one (Suc n) s =
     (case match_content (drop (Suc n) s) of
        Some c \<Rightarrow> Some c
      | None \<Rightarrow> backtrack_spaces one n s)"

definition spaces_content :: "bool \<Rightarrow> jstring \<Rightarrow> jstring option" where
  "spaces_content one s = backtrack_spaces one (length (takeWhile is_space s)) s"

text \<open>
  \<^verbatim>\<open>line.match(/^(\d+)\s*[\.\)]\s*(.+)\s*$/)\<close>, giving group 2. The digits and the white
  space after them are greedy, and giving one back cannot help: the next code unit would
  be a digit, or white space, where the pattern needs white space or the punctuation.
\<close>

definition match_numbered :: "jstring \<Rightarrow> jstring option" where
  "match_numbered line =
     (if takeWhile is_digit line = [] then None
      else (case dropWhile is_space (dropWhile is_digit line) of
              [] \<Rightarrow> None
            | p # rest \<Rightarrow> if p = 0x2E \<or> p = 0x29 then spaces_content False rest else None))"

text \<open>\<^verbatim>\<open>line.match(/^[-*]\s+(.+)\s*$/)\<close>, giving group 1.\<close>

definition match_bullet :: "jstring \<Rightarrow> jstring option" where
  "match_bullet line =
     (case line of
        [] \<Rightarrow> None
      | b # rest \<Rightarrow> if b = 0x2D \<or> b = 0x2A then spaces_content True rest else None)"

text \<open>
  \<^verbatim>\<open>message.replace(/^["'`]+|["'`]+$/g, "")\<close>. At index 0 the first alternative removes
  the leading run of quotes; from there on only the second alternative can match, at the
  first index from which the rest of the string is a run of quotes.
\<close>

fun strip_trailing_quotes :: "jstring \<Rightarrow> jstring" where
  "strip_trailing_quotes [] = []"
| "strip_trailing_quotes (c # cs) =
     (if list_all is_quote (c # cs) then [] else c # strip_trailing_quotes cs)"

definition strip_quotes :: "jstring \<Rightarrow> jstring" where
  "strip_quotes s = strip_trailing_quotes (dropWhile is_quote s)"

definition fence :: jstring where
  "fence = [0x60, 0x60, 0x60]"

definition lines_of :: "jstring \<Rightarrow> jstring list" where
  "lines_of raw =
     filter (\<lambda>line. \<not> (line = fence \<or> prefix fence line))
       (filter (\<lambda>line. length line > 0)
         (map trim (split_lf (replaceAll_crlf raw))))"

definition fromNumbered :: "jstring list \<Rightarrow> jstring list" where
  "fromNumbered lines = List.map_filter match_numbered lines"

definition fromBullets :: "jstring list \<Rightarrow> jstring list" where
  "fromBullets lines =
     (if length (fromNumbered lines) = 0 then List.map_filter match_bullet lines else [])"

definition candidates :: "jstring list \<Rightarrow> jstring list" where
  "candidates lines =
     (if length (fromNumbered lines) > 0 then fromNumbered lines else fromBullets lines)"

definition normalizeCommitSuggestions :: "jstring \<Rightarrow> jstring list" where
  "normalizeCommitSuggestions raw =
     filter (\<lambda>message. length message > 0)
       (map (\<lambda>message. trim (strip_quotes message)) (candidates (lines_of raw)))"

text \<open>
  \<^verbatim>\<open>suggestions.map((s, idx) => `${idx + 1}. ${s}`).join("\n")\<close>, the text the pipeline
  writes to standard output.
\<close>

definition numbered_output :: "jstring list \<Rightarrow> jstring" where
  "numbered_output suggestions =
     join_lf (map (\<lambda>(idx, s). decimal (idx + 1) @ u ''. '' @ s) (enumerate 0 suggestions))"

section \<open>Rendering the prompt (\<^verbatim>\<open>run.ts\<close>, line 118, and again line 263)\<close>

text \<open>
  \<^verbatim>\<open>String.prototype.replace\<close> with a string pattern and a string replacement: the first
  occurrence of the pattern is found, and the replacement text is expanded by
  ECMAScript's GetSubstitution before it is inserted. There are no captures, so
  \<^verbatim>\<open>$$\<close> gives a dollar sign, \<^verbatim>\<open>$&\<close> the matched text, \<^verbatim>\<open>$`\<close> the text before the match,
  \<^verbatim>\<open>$'\<close> the text after it, and every other code unit (a dollar sign followed by a digit
  or by \<^verbatim>\<open><\<close> included) stands for itself.
\<close>

fun index_of :: "jstring \<Rightarrow> jstring \<Rightarrow> nat option" where
  "index_of pat [] = (if pat = [] then Some 0 else None)"
| "index_of pat (c # cs) =
     (if prefix pat (c # cs) then Some 0 else map_option Suc (index_of pat cs))"

fun get_substitution :: "jstring \<Rightarrow> jstring \<Rightarrow> nat \<Rightarrow> jstring \<Rightarrow> jstring" where
  "get_substitution matched str position (c # d # r) =
     (if c = 0x24 \<and> d = 0x24 then 0x24 # get_substitution matched str position r
      else if c = 0x24 \<and> d = 0x60 then take position str @ get_substitution matched str position r
      else if c = 0x24 \<and> d = 0x26 then matched @ get_substitution matched str position r
      else if c = 0x24 \<and> d = 0x27 then
        drop (position + length matched) str @ get_substitution matched str position r
      else c # get_substitution matched str position (d # r))"
| "get_substitution matched str position r = r"

definition replace :: "jstring \<Rightarrow> jstring \<Rightarrow> jstring \<Rightarrow> jstring" where
  "replace pat replacement str =
     (case index_of pat str of
        None \<Rightarrow> str
      | Some position \<Rightarrow>
          take position str @ get_substitution pat str position replacement @
          drop (position + length pat) str)"

definition placeholder :: jstring where
  "placeholder = u ''{{diff}}''"

definition rendered_template :: "jstring \<Rightarrow> jstring \<Rightarrow> jstring" where
  "rendered_template template diff = replace placeholder diff template"

section \<open>The configuration store (\<^verbatim>\<open>config.ts\<close>)\<close>

text \<open>
  What \<^verbatim>\<open>JSON.parse\<close> returns. The configuration is used as the runtime has it: an object
  whose properties hold whatever the persisted file gave them, the interface
  \<^verbatim>\<open>Config\<close> being erased at run time. The order of an object's properties is not
  modelled, and a number is a real: the infinity that \<^verbatim>\<open>JSON.parse\<close> gives for a literal out
  of range is left out.
\<close>

datatype json =
  JNull | JBool bool | JNum real | JStr jstring | JArr "json list" | JObj "(jstring, json) fmap"

type_synonym object = "(jstring, json) fmap"

text \<open>The truth value of a property read; \<open>None\<close> is \<^verbatim>\<open>undefined\<close>.\<close>

fun truthy :: "json option \<Rightarrow> bool" where
  "truthy None = False"
| "truthy (Some JNull) = False"
| "truthy (Some (JBool b)) = b"
| "truthy (Some (JNum x)) = (x \<noteq> 0)"
| "truthy (Some (JStr s)) = (s \<noteq> [])"
| "truthy (Some (JArr xs)) = True"
| "truthy (Some (JObj m)) = True"

text \<open>
  The own enumerable properties an object spread \<^verbatim>\<open>{...value}\<close> copies: those of an object,
  the indices of an array or of a string, and none of \<^verbatim>\<open>null\<close>, a boolean or a number.
\<close>

fun own_properties :: "json \<Rightarrow> object" where
  "own_properties (JObj m) = m"
| "own_properties (JArr xs) = fmap_of_list (zip (map decimal [0..<length xs]) xs)"
| "own_properties (JStr s) =
     fmap_of_list (zip (map decimal [0..<length s]) (map (\<lambda>c. JStr [c]) s))"
| "own_properties v = fmempty"

definition OPENAI_API_KEY :: jstring where "OPENAI_API_KEY = u ''OPENAI_API_KEY''"
definition OPENAI_API_BASE :: jstring where "OPENAI_API_BASE = u ''OPENAI_API_BASE''"
definition OPENAI_MODEL :: jstring where "OPENAI_MODEL = u ''OPENAI_MODEL''"
definition model :: jstring where "model = u ''model''"
definition templates :: jstring where "templates = u ''templates''"
definition default :: jstring where "default = u ''default''"

text \<open>
  The object literal \<^verbatim>\<open>DEFAULT_CONFIG\<close>; \<open>template_path\<close> is the value of
  \<^verbatim>\<open>path.join(os.homedir(), ".bunnai-template")\<close>.
\<close>

definition DEFAULT_CONFIG_literal :: "jstring \<Rightarrow> object" where
  "DEFAULT_CONFIG_literal template_path =
     fmap_of_list
       [(OPENAI_API_KEY, JStr []),
        (OPENAI_API_BASE, JStr (u ''https://api.openai.com/v1'')),
        (model, JStr (u ''gpt-4-0125-preview'')),
        (templates, JObj (fmap_of_list [(default, JStr template_path)]))]"

text \<open>
  The file at \<^verbatim>\<open>configPath\<close>: absent, present with a text \<^verbatim>\<open>JSON.parse\<close> rejects, or
  present with the value \<^verbatim>\<open>JSON.parse\<close> gives. \<^verbatim>\<open>Bun.write(configPath, JSON.stringify(config))\<close>
  leaves a file that parses to \<open>config\<close>.
\<close>

datatype persisted = Absent | Unparsable | Parsed json

text \<open>
  What the functions read and write: the module's object \<^verbatim>\<open>DEFAULT_CONFIG\<close> (a constant
  binding, but a mutable object), the file at \<^verbatim>\<open>configPath\<close>, \<^verbatim>\<open>process.env\<close>, and the
  texts of the other files (the template files) by path.
\<close>

record world =
  DEFAULT_CONFIG :: object
  config_file :: persisted
  env :: "jstring \<rightharpoonup> jstring"
  files :: "jstring \<rightharpoonup> jstring"

text \<open>
  The local variable \<^verbatim>\<open>config\<close> of \<^verbatim>\<open>readConfigFile\<close> refers either to the object
  \<^verbatim>\<open>DEFAULT_CONFIG\<close> itself (\<^verbatim>\<open>let config = DEFAULT_CONFIG\<close>) or to the new object the
  spread built. An assignment to a property of \<^verbatim>\<open>config\<close> changes \<^verbatim>\<open>DEFAULT_CONFIG\<close> in
  the first case. Property values are held by value: that a spread configuration's
  \<^verbatim>\<open>templates\<close> may be the very object \<^verbatim>\<open>DEFAULT_CONFIG.templates\<close> is not tracked.
\<close>

datatype config_ref = Shared | Own object

fun deref :: "world \<Rightarrow> config_ref \<Rightarrow> object" where
  "deref w Shared = DEFAULT_CONFIG w"
| "deref w (Own config) = config"

fun assign :: "jstring \<Rightarrow> json \<Rightarrow> config_ref \<times> world \<Rightarrow> config_ref \<times> world" where
  "assign key v (Shared, w) = (Shared, w\<lparr>DEFAULT_CONFIG := fmupd key v (DEFAULT_CONFIG w)\<rparr>)"
| "assign key v (Own config, w) = (Own (fmupd key v config), w)"

text \<open>\<^verbatim>\<open>if (process.env.NAME) { config[key] = process.env.NAME; }\<close>\<close>

definition override :: "jstring \<Rightarrow> jstring \<Rightarrow> config_ref \<times> world \<Rightarrow> config_ref \<times> world" where
  "override name key cw =
     (case env (snd cw) name of
        None \<Rightarrow> cw
      | Some v \<Rightarrow> if v = [] then cw else assign key (JStr v) cw)"

text \<open>Lines 93 to 102 of \<^verbatim>\<open>readConfigFile\<close>: the api key, then the api base, then the model.\<close>

definition overrides :: "config_ref \<times> world \<Rightarrow> config_ref \<times> world" where
  "overrides cw =
     override OPENAI_MODEL model
       (override OPENAI_API_BASE OPENAI_API_BASE
         (override OPENAI_API_KEY OPENAI_API_KEY cw))"

datatype error = SyntaxError | InvalidConfigProperty jstring

text \<open>
  \<^verbatim>\<open>readConfigFile\<close>: what it returns or throws, and the world it leaves. It throws when
  \<^verbatim>\<open>JSON.parse\<close> does.
\<close>

definition readConfigFile :: "world \<Rightarrow> (error + config_ref) \<times> world" where
  "readConfigFile w =
     (case config_file w of
        Absent \<Rightarrow> (let (config, w1) = overrides (Shared, w) in (Inr config, w1))
      | Unparsable \<Rightarrow> (Inl SyntaxError, w)
      | Parsed fileConfig \<Rightarrow>
          (let (config, w1) = overrides (Own (DEFAULT_CONFIG w ++\<^sub>f own_properties fileConfig), w)
           in (Inr config, w1)))"

text \<open>\<^verbatim>\<open>validateKeys\<close>: the first key that \<^verbatim>\<open>Object.keys(DEFAULT_CONFIG)\<close> does not include is thrown.\<close>

fun validateKeys :: "object \<Rightarrow> jstring list \<Rightarrow> error option" where
  "validateKeys defaults [] = None"
| "validateKeys defaults (key # keys) =
     (if key |\<in>| fmdom defaults then validateKeys defaults keys
      else Some (InvalidConfigProperty key))"

text \<open>
  \<^verbatim>\<open>cleanUpTemplates(config: Config)\<close>. The loop visits every property of
  \<^verbatim>\<open>config.templates\<close> once and deletes the property it visits when its path is not the
  path of a file; what it leaves are the properties whose file exists. The deletion is
  made in the object the argument refers to; the result here is the configuration the
  caller then holds. The result is \<open>None\<close> where the argument is not a \<^verbatim>\<open>Config\<close> (its
  \<^verbatim>\<open>templates\<close> is not an object of strings): what \<^verbatim>\<open>Bun.file\<close> does with a value that is
  not a string is not part of this repository.
\<close>

definition is_path :: "json \<Rightarrow> bool" where
  "is_path v = (case v of JStr p \<Rightarrow> True | _ \<Rightarrow> False)"

definition file_exists :: "world \<Rightarrow> json \<Rightarrow> bool" where
  "file_exists w v = (case v of JStr p \<Rightarrow> p \<in> dom (files w) | _ \<Rightarrow> False)"

definition cleanUpTemplates :: "world \<Rightarrow> object \<Rightarrow> object option" where
  "cleanUpTemplates w config =
     (case fmlookup config templates of
        Some (JObj t) \<Rightarrow>
          if fmpred (\<lambda>templateName templatePath. is_path templatePath) t
          then Some (fmupd templates
                 (JObj (fmfilter (\<lambda>templateName.
                    case fmlookup t templateName of
                      Some templatePath \<Rightarrow> file_exists w templatePath
                    | None \<Rightarrow> False) t)) config)
          else None
      | _ \<Rightarrow> None)"

text \<open>
  \<^verbatim>\<open>setConfigs\<close>: the error thrown, if any, and the world it leaves. The values of the
  updates are JSON values.
\<close>

definition setConfigs :: "(jstring \<times> json) list \<Rightarrow> world \<Rightarrow> error option \<times> world" where
  "setConfigs keyValues w =
     (case readConfigFile w of
        (Inl e, w1) \<Rightarrow> (Some e, w1)
      | (Inr config, w1) \<Rightarrow>
          (case validateKeys (DEFAULT_CONFIG w1) (map fst keyValues) of
             Some e \<Rightarrow> (Some e, w1)
           | None \<Rightarrow>
               (let (config, w2) = fold (\<lambda>(key, v). assign key v) keyValues (config, w1)
                in (None, w2\<lparr>config_file := Parsed (JObj (deref w2 config))\<rparr>))))"

section \<open>The generation pipeline (\<^verbatim>\<open>run.ts\<close>)\<close>

text \<open>
  \<^verbatim>\<open>run.ts\<close> declares and exports \<^verbatim>\<open>run\<close> twice: at lines 52 to 174, and again at lines
  197 to 322. Both declarations are modelled, the first as \<open>run\<close> and the second as
  \<open>run_redeclared\<close>. The second is the later binding of the name, the one in effect when
  the file is loaded as it stands. The two agree on the steps up to the rendered prompt,
  but for the channel of the verbose lines (\<^verbatim>\<open>console.error\<close> in the first,
  \<^verbatim>\<open>console.debug\<close> in the second); they differ in what they do with the reply of the model.

  A run is modelled by the trace of what it does to the process:
  \<^item> \<open>Err text\<close>: \<^verbatim>\<open>console.error(text)\<close>, a line on standard error;
  \<^item> \<open>ErrCaught text\<close>: a line on standard error that starts with \<open>text\<close> and ends with a
    rendering of the error caught;
  \<^item> \<open>ErrResponse\<close>: \<^verbatim>\<open>console.error(JSON.stringify(response, null, 2))\<close>;
  \<^item> \<open>Out text\<close>: \<^verbatim>\<open>process.stdout.write(text)\<close>, the text on standard output;
  \<^item> \<open>Log text\<close>: \<^verbatim>\<open>console.log(text)\<close>, the text and a line feed on standard output;
  \<^item> \<open>Debug text\<close>: \<^verbatim>\<open>console.debug(text)\<close>;
  \<^item> \<open>DebugResponse\<close>: \<^verbatim>\<open>console.debug(JSON.stringify(response, null, 2))\<close>;
  \<^item> \<open>Exit code\<close>: \<^verbatim>\<open>process.exit(code)\<close>;
  \<^item> \<open>Rejected\<close>: an error leaves \<^verbatim>\<open>run\<close> uncaught (the promise is rejected);
  \<^item> \<open>OutsideModel\<close>: the run hands \<^verbatim>\<open>Bun.file\<close> a value that is not a string, or reads
    \<^verbatim>\<open>templates\<close> off a value that is neither an object nor \<^verbatim>\<open>null\<close>.

  A trace that ends with none of the last three is a run that returns.
\<close>

datatype event =
  Err jstring | ErrCaught jstring | ErrResponse | Out jstring | Log jstring
  | Debug jstring | DebugResponse | Exit nat | Rejected | OutsideModel

text \<open>The collaborators: a call throws or returns.\<close>

datatype 'a ext = Throws | Returns 'a

record request =
  req_apiKey :: "json option"
  req_baseURL :: "json option"
  req_model :: "json option"
  req_system :: jstring
  req_user :: jstring

text \<open>
  The message of a choice of the response: its \<^verbatim>\<open>content\<close>, a string or \<^verbatim>\<open>null\<close>, and its
  \<^verbatim>\<open>reasoning_content\<close>, which only the second declaration reads: a string, or \<open>None\<close>
  when the message has no such property or holds \<^verbatim>\<open>null\<close> there.
\<close>

record message =
  msg_content :: "jstring option"
  msg_reasoning_content :: "jstring option"

text \<open>
  \<open>pwd\<close> is \<^verbatim>\<open>$`pwd`.text()\<close>, \<open>git_diff\<close> is \<^verbatim>\<open>simpleGit(target_dir).diff(["--cached"])\<close>,
  and \<open>chat\<close> is \<^verbatim>\<open>oai.chat.completions.create\<close>, returning for each choice of the
  response its message.
\<close>

record externals =
  pwd :: "jstring ext"
  git_diff :: "jstring \<Rightarrow> jstring ext"
  chat :: "request \<Rightarrow> message list ext"

definition system_prompt :: jstring where
  "system_prompt =
     u ''You are a commit message generator. I will provide you with a git diff, and you should generate 5 different appropriate commit messages using the conventional commit format. Output ONLY the commit messages in a numbered list format like:'' @
     LF # u ''1. first commit message'' @ LF # u ''2. second commit message'' @
     LF # u ''3. third commit message'' @ LF # u ''4. fourth commit message'' @
     LF # u ''5. fifth commit message'' @ LF # LF #
     u ''Do not write any explanations or other words.''"

subsection \<open>The first declaration (lines 52 to 174)\<close>

text \<open>\<^verbatim>\<open>if (options.verbose) { console.error(text); }\<close>\<close>

definition trace :: "bool \<Rightarrow> jstring \<Rightarrow> event list" where
  "trace verbose text = (if verbose then [Err text] else [])"

definition parse_failure :: jstring where
  "parse_failure =
     u ''Failed to parse commit messages from model output. Re-run with --verbose to inspect the raw response.''"

text \<open>Lines 160 to 169: normalize the reply, and write the numbered list or fail.\<close>

definition emit :: "jstring \<Rightarrow> event list" where
  "emit content =
     (let suggestions = normalizeCommitSuggestions content
      in if length suggestions = 0 then [Err parse_failure, Exit 1]
         else [Out (numbered_output suggestions)])"

text \<open>The request of lines 132 to 145, which lines 282 to 295 repeat.\<close>

definition completion_request :: "object \<Rightarrow> jstring \<Rightarrow> request" where
  "completion_request config prompt =
     \<lparr>req_apiKey = fmlookup config OPENAI_API_KEY,
      req_baseURL = fmlookup config OPENAI_API_BASE,
      req_model = fmlookup config model,
      req_system = system_prompt, req_user = prompt\<rparr>"

text \<open>
  Lines 128 to 173, the \<^verbatim>\<open>try\<close> block. A response with no choice makes
  \<^verbatim>\<open>response.choices[0].message\<close> throw a TypeError, which the \<^verbatim>\<open>catch\<close> reports like a
  failure of the call.
\<close>

definition invoke_model :: "bool \<Rightarrow> externals \<Rightarrow> object \<Rightarrow> jstring \<Rightarrow> event list" where
  "invoke_model verbose x config prompt =
     trace verbose (u ''Sending request to OpenAI...'') @
     (case chat x (completion_request config prompt) of
        Throws \<Rightarrow> [ErrCaught (u ''Failed to fetch from openai: ''), Exit 1]
      | Returns choices \<Rightarrow>
          trace verbose (u ''Response received from OpenAI.'') @
          (if verbose then [ErrResponse] else []) @
          (case choices of
             [] \<Rightarrow> [ErrCaught (u ''Failed to fetch from openai: ''), Exit 1]
           | message # _ \<Rightarrow>
               (case msg_content message of
                  None \<Rightarrow> [Err (u ''Failed to generate commit message''), Exit 1]
                | Some text \<Rightarrow>
                    if text = [] then [Err (u ''Failed to generate commit message''), Exit 1]
                    else emit text)))"

text \<open>Lines 108 to 121: the staged diff, the empty diff, the rendered prompt.\<close>

definition fetch_diff :: "bool \<Rightarrow> externals \<Rightarrow> object \<Rightarrow> jstring \<Rightarrow> jstring \<Rightarrow> event list" where
  "fetch_diff verbose x config template target_dir =
     (case git_diff x target_dir of
        Throws \<Rightarrow> [ErrCaught (u ''Error getting git diff:''), Rejected]
      | Returns diff \<Rightarrow>
          trace verbose (u ''Git diff retrieved:'' @ LF # u '' '' @ diff) @
          (if length (trim diff) = 0 then [Err (u ''No changes to commit in '' @ target_dir), Exit 1]
           else trace verbose (u ''Template rendered with git diff.'') @
                invoke_model verbose x config (rendered_template template diff)))"

text \<open>Lines 98 to 106: the api key and the model.\<close>

definition check_credentials ::
    "bool \<Rightarrow> externals \<Rightarrow> object \<Rightarrow> jstring \<Rightarrow> jstring \<Rightarrow> event list" where
  "check_credentials verbose x config template target_dir =
     (if \<not> truthy (fmlookup config OPENAI_API_KEY) then [Err (u ''OPENAI_API_KEY is not set''), Exit 1]
      else if \<not> truthy (fmlookup config model) then [Err (u ''Model is not set''), Exit 1]
      else fetch_diff verbose x config template target_dir)"

text \<open>Lines 77 to 96: the template file and the working directory.\<close>

definition read_template ::
    "bool \<Rightarrow> externals \<Rightarrow> world \<Rightarrow> object \<Rightarrow> json option \<Rightarrow> event list" where
  "read_template verbose x w config templateFilePath =
     (case templateFilePath of
        Some (JStr p) \<Rightarrow>
          (case files w p of
             None \<Rightarrow> [Err (u ''Error: The template file '' @ 0x27 # p @ 0x27 # u '' does not exist.''), Exit 1]
           | Some template \<Rightarrow>
               trace verbose (u ''Template file found: '' @ p) @
               trace verbose (u ''Template file read successfully.'') @
               (case pwd x of
                  Throws \<Rightarrow> [Rejected]
                | Returns out \<Rightarrow>
                    trace verbose (u ''Target directory: '' @ trim out) @
                    check_credentials verbose x config template (trim out)))
      | _ \<Rightarrow> [OutsideModel])"

text \<open>
  Lines 58 to 75: the path of the template. \<^verbatim>\<open>Object.prototype.hasOwnProperty.call\<close> and the
  read of \<^verbatim>\<open>.default\<close> throw a TypeError on \<^verbatim>\<open>null\<close> and \<^verbatim>\<open>undefined\<close>.
\<close>

definition resolve_template ::
    "bool \<Rightarrow> jstring option \<Rightarrow> externals \<Rightarrow> world \<Rightarrow> object \<Rightarrow> event list" where
  "resolve_template verbose templateName x w config =
     (case fmlookup config templates of
        None \<Rightarrow> [Rejected]
      | Some JNull \<Rightarrow> [Rejected]
      | Some (JObj t) \<Rightarrow>
          (case templateName of
             Some name \<Rightarrow>
               if name = [] then
                 trace verbose (u ''Using default template.'') @
                 read_template verbose x w config (fmlookup t default)
               else if \<not> name |\<in>| fmdom t then
                 [Err (u ''Error: Template '' @ 0x27 # name @ 0x27 #
                       u '' does not exist in the configuration.''), Exit 1]
               else
                 trace verbose (u ''Using template: '' @ name) @
                 read_template verbose x w config (fmlookup t name)
           | None \<Rightarrow>
               trace verbose (u ''Using default template.'') @
               read_template verbose x w config (fmlookup t default))
      | _ \<Rightarrow> [OutsideModel])"

definition run :: "bool \<Rightarrow> jstring option \<Rightarrow> externals \<Rightarrow> world \<Rightarrow> event list" where
  "run verbose templateName x w =
     (case readConfigFile w of
        (Inl e, w1) \<Rightarrow> [Rejected]
      | (Inr config, w1) \<Rightarrow>
          trace verbose (u ''Configuration loaded successfully.'') @
          resolve_template verbose templateName x w1 (deref w1 config))"

subsection \<open>The second declaration (lines 197 to 322)\<close>

text \<open>\<^verbatim>\<open>if (options.verbose) { console.debug(text); }\<close>\<close>

definition debug :: "bool \<Rightarrow> jstring \<Rightarrow> event list" where
  "debug verbose text = (if verbose then [Debug text] else [])"

text \<open>
  Line 303, \<^verbatim>\<open>message.content || (message as any).reasoning_content\<close>: the content unless
  it is \<^verbatim>\<open>null\<close> or empty, and the reasoning content then.
\<close>

definition content_or_reasoning :: "message \<Rightarrow> jstring option" where
  "content_or_reasoning message =
     (case msg_content message of
        None \<Rightarrow> msg_reasoning_content message
      | Some text \<Rightarrow> if text = [] then msg_reasoning_content message else Some text)"

text \<open>
  Lines 278 to 321, the \<^verbatim>\<open>try\<close> block. There is no call of the normalizer: the reply is
  trimmed and written with \<^verbatim>\<open>console.log\<close>, and the run returns.
\<close>

definition invoke_model_redeclared ::
    "bool \<Rightarrow> externals \<Rightarrow> object \<Rightarrow> jstring \<Rightarrow> event list" where
  "invoke_model_redeclared verbose x config prompt =
     debug verbose (u ''Sending request to OpenAI...'') @
     (case chat x (completion_request config prompt) of
        Throws \<Rightarrow> [ErrCaught (u ''Failed to fetch from openai: ''), Exit 1]
      | Returns choices \<Rightarrow>
          debug verbose (u ''Response received from OpenAI.'') @
          (if verbose then [DebugResponse] else []) @
          (case choices of
             [] \<Rightarrow> [ErrCaught (u ''Failed to fetch from openai: ''), Exit 1]
           | message # _ \<Rightarrow>
               (case content_or_reasoning message of
                  None \<Rightarrow> [Err (u ''Failed to generate commit message''), Exit 1]
                | Some text \<Rightarrow>
                    if text = [] then [Err (u ''Failed to generate commit message''), Exit 1]
                    else (if \<not> verbose then [Err (u ''Done!'')] else []) @
                         [Log (trim text)] @
                         debug verbose (u ''Commit message generated and outputted.''))))"

text \<open>
  Lines 253 to 271: the staged diff, the empty diff, the rendered prompt, and the line
  that tells a run that is not verbose that the request is under way.
\<close>

definition fetch_diff_redeclared ::
    "bool \<Rightarrow> externals \<Rightarrow> object \<Rightarrow> jstring \<Rightarrow> jstring \<Rightarrow> event list" where
  "fetch_diff_redeclared verbose x config template target_dir =
     (case git_diff x target_dir of
        Throws \<Rightarrow> [ErrCaught (u ''Error getting git diff:''), Rejected]
      | Returns diff \<Rightarrow>
          debug verbose (u ''Git diff retrieved:'' @ LF # u '' '' @ diff) @
          (if length (trim diff) = 0 then [Err (u ''No changes to commit in '' @ target_dir), Exit 1]
           else debug verbose (u ''Template rendered with git diff.'') @
                (if \<not> verbose then [Err (u ''Generating commit messages...'')] else []) @
                invoke_model_redeclared verbose x config (rendered_template template diff)))"

text \<open>Lines 243 to 251: the api key and the model.\<close>

definition check_credentials_redeclared ::
    "bool \<Rightarrow> externals \<Rightarrow> object \<Rightarrow> jstring \<Rightarrow> jstring \<Rightarrow> event list" where
  "check_credentials_redeclared verbose x config template target_dir =
     (if \<not> truthy (fmlookup config OPENAI_API_KEY) then [Err (u ''OPENAI_API_KEY is not set''), Exit 1]
      else if \<not> truthy (fmlookup config model) then [Err (u ''Model is not set''), Exit 1]
      else fetch_diff_redeclared verbose x config template target_dir)"

text \<open>Lines 222 to 241: the template file and the working directory.\<close>

definition read_template_redeclared ::
    "bool \<Rightarrow> externals \<Rightarrow> world \<Rightarrow> object \<Rightarrow> json option \<Rightarrow> event list" where
  "read_template_redeclared verbose x w config templateFilePath =
     (case templateFilePath of
        Some (JStr p) \<Rightarrow>
          (case files w p of
             None \<Rightarrow> [Err (u ''Error: The template file '' @ 0x27 # p @ 0x27 # u '' does not exist.''), Exit 1]
           | Some template \<Rightarrow>
               debug verbose (u ''Template file found: '' @ p) @
               debug verbose (u ''Template file read successfully.'') @
               (case pwd x of
                  Throws \<Rightarrow> [Rejected]
                | Returns out \<Rightarrow>
                    debug verbose (u ''Target directory: '' @ trim out) @
                    check_credentials_redeclared verbose x config template (trim out)))
      | _ \<Rightarrow> [OutsideModel])"

text \<open>Lines 203 to 220: the path of the template.\<close>

definition resolve_template_redeclared ::
    "bool \<Rightarrow> jstring option \<Rightarrow> externals \<Rightarrow> world \<Rightarrow> object \<Rightarrow> event list" where
  "resolve_template_redeclared verbose templateName x w config =
     (case fmlookup config templates of
        None \<Rightarrow> [Rejected]
      | Some JNull \<Rightarrow> [Rejected]
      | Some (JObj t) \<Rightarrow>
          (case templateName of
             Some name \<Rightarrow>
               if name = [] then
                 debug verbose (u ''Using default template.'') @
                 read_template_redeclared verbose x w config (fmlookup t default)
               else if \<not> name |\<in>| fmdom t then
                 [Err (u ''Error: Template '' @ 0x27 # name @ 0x27 #
                       u '' does not exist in the configuration.''), Exit 1]
               else
                 debug verbose (u ''Using template: '' @ name) @
                 read_template_redeclared verbose x w config (fmlookup t name)
           | None \<Rightarrow>
               debug verbose (u ''Using default template.'') @
               read_template_redeclared verbose x w config (fmlookup t default))
      | _ \<Rightarrow> [OutsideModel])"

definition run_redeclared :: "bool \<Rightarrow> jstring option \<Rightarrow> externals \<Rightarrow> world \<Rightarrow> event list" where
  "run_redeclared verbose templateName x w =
     (case readConfigFile w of
        (Inl e, w1) \<Rightarrow> [Rejected]
      | (Inr config, w1) \<Rightarrow>
          debug verbose (u ''Configuration loaded successfully.'') @
          resolve_template_redeclared verbose templateName x w1 (deref w1 config))"

section \<open>Notions the statements use\<close>

text \<open>The object a caller of \<^verbatim>\<open>readConfigFile\<close> receives; \<open>None\<close> when it throws.\<close>

definition loaded :: "world \<Rightarrow> object option" where
  "loaded w = (case readConfigFile w of (Inr config, w1) \<Rightarrow> Some (deref w1 config) | (Inl e, w1) \<Rightarrow> None)"

text \<open>The value the persisted record holds for a field, if the file is there and holds one.\<close>

definition persisted_value :: "world \<Rightarrow> jstring \<Rightarrow> json option" where
  "persisted_value w key =
     (case config_file w of Parsed fileConfig \<Rightarrow> fmlookup (own_properties fileConfig) key | _ \<Rightarrow> None)"

text \<open>The environment variable that overrides a field, when it is set and not empty.\<close>

definition env_override :: "world \<Rightarrow> jstring \<Rightarrow> jstring option" where
  "env_override w key =
     (let name = (if key = OPENAI_API_KEY then Some OPENAI_API_KEY
                  else if key = OPENAI_API_BASE then Some OPENAI_API_BASE
                  else if key = model then Some OPENAI_MODEL else None)
      in case name of
           None \<Rightarrow> None
         | Some n \<Rightarrow> (case env w n of None \<Rightarrow> None | Some v \<Rightarrow> if v = [] then None else Some v))"

text \<open>The templates of a configuration are a mapping that has the key \<^verbatim>\<open>"default"\<close>.\<close>

definition has_default :: "object \<Rightarrow> bool" where
  "has_default config =
     (case fmlookup config templates of Some (JObj t) \<Rightarrow> default |\<in>| fmdom t | _ \<Rightarrow> False)"

text \<open>The four fields of \<^verbatim>\<open>Config\<close>.\<close>

definition known_keys :: "jstring fset" where
  "known_keys = {|OPENAI_API_KEY, OPENAI_API_BASE, model, templates|}"

text \<open>The world of a process that has just loaded the module.\<close>

definition initial_world ::
    "jstring \<Rightarrow> persisted \<Rightarrow> (jstring \<rightharpoonup> jstring) \<Rightarrow> (jstring \<rightharpoonup> jstring) \<Rightarrow> world" where
  "initial_world template_path file variables texts =
     \<lparr>DEFAULT_CONFIG = DEFAULT_CONFIG_literal template_path, config_file = file,
      env = variables, files = texts\<rparr>"

text \<open>
  The value of \<^verbatim>\<open>templateFilePath\<close> when a run gets to line 77: the template of the name
  given, or the default template when no name, or the empty name, is given.
\<close>

definition resolved_path :: "object \<Rightarrow> jstring option \<Rightarrow> json option" where
  "resolved_path config templateName =
     (case fmlookup config templates of
        Some (JObj t) \<Rightarrow>
          (case templateName of
             Some name \<Rightarrow> if name = [] then fmlookup t default else fmlookup t name
           | None \<Rightarrow> fmlookup t default)
      | _ \<Rightarrow> None)"

text \<open>The lines a verbose run of the first declaration has written when it gets to line 98.\<close>

definition preamble :: "bool \<Rightarrow> jstring option \<Rightarrow> jstring \<Rightarrow> jstring \<Rightarrow> event list" where
  "preamble verbose templateName p target_dir =
     trace verbose (u ''Configuration loaded successfully.'') @
     trace verbose (case templateName of
                    Some name \<Rightarrow> if name = [] then u ''Using default template.''
                                 else u ''Using template: '' @ name
                  | None \<Rightarrow> u ''Using default template.'') @
     trace verbose (u ''Template file found: '' @ p) @
     trace verbose (u ''Template file read successfully.'') @
     trace verbose (u ''Target directory: '' @ target_dir)"

text \<open>The lines a verbose run of the second declaration has written when it gets to line 243.\<close>

definition preamble_redeclared :: "bool \<Rightarrow> jstring option \<Rightarrow> jstring \<Rightarrow> jstring \<Rightarrow> event list" where
  "preamble_redeclared verbose templateName p target_dir =
     debug verbose (u ''Configuration loaded successfully.'') @
     debug verbose (case templateName of
                    Some name \<Rightarrow> if name = [] then u ''Using default template.''
                                 else u ''Using template: '' @ name
                  | None \<Rightarrow> u ''Using default template.'') @
     debug verbose (u ''Template file found: '' @ p) @
     debug verbose (u ''Template file read successfully.'') @
     debug verbose (u ''Target directory: '' @ target_dir)"

text \<open>A trace of lines on standard error only.\<close>

definition only_stderr :: "event list \<Rightarrow> bool" where
  "only_stderr es =
     list_all (\<lambda>e. case e of Err text \<Rightarrow> True | ErrCaught text \<Rightarrow> True | ErrResponse \<Rightarrow> True
                    | _ \<Rightarrow> False) es"

text \<open>
  Collaborators that return a given working directory, a given diff, and a response with
  one choice for each reply given: a message with that content and no reasoning content.
\<close>

definition scripted :: "jstring \<Rightarrow> jstring \<Rightarrow> jstring option list \<Rightarrow> externals" where
  "scripted out diff replies =
     \<lparr>pwd = Returns out, git_diff = (\<lambda>target_dir. Returns diff),
      chat = (\<lambda>r. Returns (map (\<lambda>reply. \<lparr>msg_content = reply, msg_reasoning_content = None\<rparr>) replies))\<rparr>"

text \<open>A line as the extraction phase sees it: not empty, with no white space at either end.\<close>

definition trimmed :: "jstring \<Rightarrow> bool" where
  "trimmed s \<longleftrightarrow> s \<noteq> [] \<and> \<not> is_space (hd s) \<and> \<not> is_space (last s)"

text \<open>
  The shape of a numbered line: digits, white space or none, a full stop or a closing
  parenthesis, white space or none, and a content that does not start with white space
  and holds no line terminator.
\<close>

definition numbered_line :: "jstring \<Rightarrow> jstring \<Rightarrow> bool" where
  "numbered_line line content \<longleftrightarrow>
     (\<exists>digits w1 p w2.
        line = digits @ w1 @ p # w2 @ content \<and>
        digits \<noteq> [] \<and> list_all is_digit digits \<and> list_all is_space w1 \<and>
        (p = 0x2E \<or> p = 0x29) \<and> list_all is_space w2 \<and>
        content \<noteq> [] \<and> \<not> is_space (hd content) \<and> list_all is_dot content)"

text \<open>
  The shape of a numbered line in the words of the specification: one or more digits, then a full stop
  or a closing parenthesis, then white space, then content.
\<close>

definition claimed_numbered_line :: "jstring \<Rightarrow> bool" where
  "claimed_numbered_line line \<longleftrightarrow>
     takeWhile is_digit line \<noteq> [] \<and>
     (case dropWhile is_digit line of
        p # w # rest \<Rightarrow> (p = 0x2E \<or> p = 0x29) \<and> is_space w \<and> dropWhile is_space rest \<noteq> []
      | _ \<Rightarrow> False)"

text \<open>A line of the output, as the pipeline numbers it.\<close>

definition numbered :: "nat \<Rightarrow> jstring \<Rightarrow> jstring" where
  "numbered idx s = decimal (idx + 1) @ u ''. '' @ s"

section \<open>The response normalizer: lemmas\<close>

lemmas class_defs = is_digit_def is_space_def is_line_terminator_def is_dot_def is_quote_def

lemma space_not_digit: "is_space c \<Longrightarrow> \<not> is_digit c"
  using order_trans [of "0x2000 :: code_unit" c "0x39"]
  by (auto simp add: class_defs)

lemma line_terminator_space: "is_line_terminator c \<Longrightarrow> is_space c"
  by (simp add: is_space_def)

lemma not_space_dot: "\<not> is_space c \<Longrightarrow> is_dot c"
  by (auto simp add: is_dot_def is_space_def)

lemma trim_hd: "trim s \<noteq> [] \<Longrightarrow> \<not> is_space (hd (trim s))"
proof -
  assume a: "trim s \<noteq> []"
  let ?ys = "dropWhile is_space s"
  have ys: "?ys \<noteq> []"
  proof
    assume "?ys = []"
    then have "trim s = []" by (auto simp add: trim_def dest: set_dropWhileD)
    with a show False by simp
  qed
  from a have z: "dropWhile is_space (rev ?ys) \<noteq> []" by (simp add: trim_def)
  have "hd (trim s) = last (dropWhile is_space (rev ?ys))"
    using z by (simp add: trim_def hd_rev)
  also have "\<dots> = last (rev ?ys)"
    using z by (metis last_appendR takeWhile_dropWhile_id)
  also have "\<dots> = hd ?ys" using ys by (simp add: last_rev)
  finally show ?thesis using ys hd_dropWhile by metis
qed

lemma trim_last: "trim s \<noteq> [] \<Longrightarrow> \<not> is_space (last (trim s))"
proof -
  assume a: "trim s \<noteq> []"
  then have z: "dropWhile is_space (rev (dropWhile is_space s)) \<noteq> []" by (simp add: trim_def)
  have "last (trim s) = hd (dropWhile is_space (rev (dropWhile is_space s)))"
    using z by (simp add: trim_def last_rev)
  then show ?thesis using z hd_dropWhile by metis
qed

lemma trim_id: "s \<noteq> [] \<Longrightarrow> \<not> is_space (hd s) \<Longrightarrow> \<not> is_space (last s) \<Longrightarrow> trim s = s"
proof -
  assume a: "s \<noteq> []" "\<not> is_space (hd s)" "\<not> is_space (last s)"
  then have "dropWhile is_space s = s" by (cases s) simp_all
  moreover from a have "dropWhile is_space (rev s) = rev s"
    by (cases "rev s") (simp_all add: last_rev [symmetric] hd_rev)
  ultimately show ?thesis by (simp add: trim_def)
qed

lemma lines_of_trimmed: "line \<in> set (lines_of raw) \<Longrightarrow> trimmed line"
  by (auto simp add: lines_of_def trimmed_def trim_hd trim_last)

lemma backtrack_content_None:
  "(\<And>m. 0 < m \<Longrightarrow> m \<le> n \<Longrightarrow> \<not> list_all is_space (drop m s)) \<Longrightarrow> backtrack_content n s = None"
  by (induction n) simp_all

lemma backtrack_content_greedy:
  "0 < n \<Longrightarrow> list_all is_space (drop n s) \<Longrightarrow> backtrack_content n s = Some (take n s)"
  by (cases n) simp_all

lemma drop_last_not_space:
  assumes "s \<noteq> []" "\<not> is_space (last s)" "m < length s"
  shows "\<not> list_all is_space (drop m s)"
proof -
  from assms(3) have "drop m s \<noteq> []" by simp
  moreover from assms(3) have "last (drop m s) = last s" by simp
  ultimately have "last s \<in> set (drop m s)" by (metis last_in_set)
  with assms(2) show ?thesis by (auto simp add: list_all_iff)
qed

lemma match_content_trimmed:
  assumes "s \<noteq> []" "\<not> is_space (last s)"
  shows "match_content s = (if list_all is_dot s then Some s else None)"
proof (cases "list_all is_dot s")
  case True
  then have tw: "takeWhile is_dot s = s" by (simp add: list_all_iff)
  have "backtrack_content (length s) s = Some (take (length s) s)"
    using assms(1) by (intro backtrack_content_greedy) simp_all
  with True show ?thesis
    by (simp add: match_content_def tw)
next
  case False
  then have "takeWhile is_dot s \<noteq> s" by (simp add: list_all_iff)
  then have "dropWhile is_dot s \<noteq> []" by (metis takeWhile_dropWhile_id append_Nil2)
  moreover have "length (takeWhile is_dot s) + length (dropWhile is_dot s) = length s"
    by (metis length_append takeWhile_dropWhile_id)
  ultimately have "length (takeWhile is_dot s) < length s" by (cases "dropWhile is_dot s") simp_all
  then have "\<not> list_all is_space (drop m s)" if "m \<le> length (takeWhile is_dot s)" for m
    using that assms by (intro drop_last_not_space) simp_all
  with False show ?thesis
    by (simp add: match_content_def backtrack_content_None)
qed

lemma list_all_dot_drop: "list_all is_dot (drop k s) \<Longrightarrow> list_all is_dot (drop (Suc k) s)"
  by (metis drop_Suc list_all_iff tl_drop list.set_sel(2) drop_eq_Nil2 list.set(1) empty_iff
        drop_all nat_le_linear)

lemma backtrack_spaces_None:
  assumes "s \<noteq> []" "\<not> is_space (last s)"
  shows "k < length s \<Longrightarrow> \<not> list_all is_dot (drop k s) \<Longrightarrow> backtrack_spaces one k s = None"
proof (induction k)
  case 0
  then show ?case using assms by (simp add: match_content_trimmed)
next
  case (Suc k)
  from Suc.prems have d: "drop (Suc k) s \<noteq> []" "last (drop (Suc k) s) = last s" by simp_all
  from Suc.prems(2) have "\<not> list_all is_dot (drop k s)"
    using list_all_dot_drop by blast
  with Suc have "backtrack_spaces one k s = None" by simp
  with Suc.prems(2) d assms(2) show ?case
    by (simp add: match_content_trimmed)
qed

lemma backtrack_spaces_Some:
  assumes "\<not> is_space (last s)" "Suc k < length s" "list_all is_dot (drop (Suc k) s)"
  shows "backtrack_spaces one (Suc k) s = Some (drop (Suc k) s)"
proof -
  from assms(2) have "drop (Suc k) s \<noteq> []" "last (drop (Suc k) s) = last s" by simp_all
  with assms(1,3) show ?thesis by (simp add: match_content_trimmed)
qed

lemma takeWhile_space_length:
  assumes "s \<noteq> []" "\<not> is_space (last s)"
  shows "length (takeWhile is_space s) < length s"
proof -
  have "dropWhile is_space s \<noteq> []"
    using assms by (auto simp add: dropWhile_eq_Nil_conv)
  moreover have "length (takeWhile is_space s) + length (dropWhile is_space s) = length s"
    by (metis length_append takeWhile_dropWhile_id)
  ultimately show ?thesis by (cases "dropWhile is_space s") simp_all
qed

lemma spaces_content_trimmed:
  assumes "s \<noteq> []" "\<not> is_space (last s)"
  shows "spaces_content one s =
           (if list_all is_dot (dropWhile is_space s) \<and> (one \<longrightarrow> is_space (hd s))
            then Some (dropWhile is_space s) else None)"
proof -
  let ?n = "length (takeWhile is_space s)"
  have n: "?n < length s" using assms by (rule takeWhile_space_length)
  have d: "dropWhile is_space s = drop ?n s" by (rule dropWhile_eq_drop)
  have z: "?n = 0 \<longleftrightarrow> \<not> is_space (hd s)"
    using assms(1) by (cases s) simp_all
  show ?thesis
  proof (cases "list_all is_dot (drop ?n s)")
    case False
    with backtrack_spaces_None [OF assms n] show ?thesis
      by (simp add: spaces_content_def d)
  next
    case True
    show ?thesis
    proof (cases ?n)
      case 0
      with True z assms show ?thesis
        by (simp add: spaces_content_def d match_content_trimmed)
    next
      case (Suc k)
      with True z n backtrack_spaces_Some [OF assms(2), of k one] show ?thesis
        by (simp add: spaces_content_def d)
    qed
  qed
qed

lemma spaces_content_Nil: "spaces_content one [] = None"
  by (simp add: spaces_content_def match_content_def)

lemma punctuation: "p = 0x2E \<or> p = 0x29 \<Longrightarrow> \<not> is_digit p \<and> \<not> is_space p"
  by (auto simp add: class_defs)

lemma takeWhile_prefix:
  assumes "list_all P xs" "ys = [] \<or> \<not> P (hd ys)"
  shows "takeWhile P (xs @ ys) = xs" "dropWhile P (xs @ ys) = ys"
proof -
  from assms(2) have "takeWhile P ys = []" "dropWhile P ys = ys" by (cases ys; simp)+
  with assms(1) show "takeWhile P (xs @ ys) = xs" "dropWhile P (xs @ ys) = ys"
    by (simp_all add: list_all_iff)
qed

lemma match_numbered_shape:
  assumes "trimmed line" "match_numbered line = Some content"
  shows "numbered_line line content"
proof -
  define ds where "ds = takeWhile is_digit line"
  define r1 where "r1 = dropWhile is_digit line"
  define w1 where "w1 = takeWhile is_space r1"
  define r2 where "r2 = dropWhile is_space r1"
  have m: "(if ds = [] then None
            else (case r2 of [] \<Rightarrow> None
                  | p # rest \<Rightarrow> if p = 0x2E \<or> p = 0x29 then spaces_content False rest else None)) =
           Some content"
    using assms(2) unfolding match_numbered_def ds_def r1_def r2_def .
  then have ds: "ds \<noteq> []" by (cases "ds = []") simp_all
  from m ds obtain p rest where r2: "r2 = p # rest" by (cases r2) simp_all
  from m ds r2 have p: "p = 0x2E \<or> p = 0x29" by (cases "p = 0x2E \<or> p = 0x29") simp_all
  from m ds r2 p have sc: "spaces_content False rest = Some content" by simp
  have "line = ds @ r1" by (simp add: ds_def r1_def)
  moreover have "r1 = w1 @ r2" by (simp add: w1_def r2_def)
  ultimately have line: "line = ds @ w1 @ p # rest" using r2 by simp
  have rest: "rest \<noteq> []"
  proof
    assume "rest = []"
    with sc show False by (simp add: spaces_content_Nil)
  qed
  then have "last (ds @ w1 @ p # rest) = last rest" by simp
  with assms(1) have l: "\<not> is_space (last rest)" by (simp add: trimmed_def line)
  have c: "list_all is_dot (dropWhile is_space rest)" "content = dropWhile is_space rest"
    using sc unfolding spaces_content_trimmed [OF rest l, of False]
    by (simp_all split: if_splits)
  from l rest have ne: "dropWhile is_space rest \<noteq> []"
    by auto
  then have hd: "\<not> is_space (hd (dropWhile is_space rest))" by (rule hd_dropWhile)
  define w2 where "w2 = takeWhile is_space rest"
  have "rest = w2 @ content" by (simp add: w2_def c(2))
  with line have e: "line = ds @ w1 @ p # w2 @ content" by simp
  have a: "list_all is_digit ds" "list_all is_space w1" "list_all is_space w2"
    by (auto simp add: ds_def w1_def w2_def list_all_iff dest: set_takeWhileD)
  from ne hd c have k: "content \<noteq> []" "\<not> is_space (hd content)" "list_all is_dot content"
    by simp_all
  show ?thesis
    unfolding numbered_line_def
    using e ds a p k by (intro exI [of _ ds] exI [of _ w1] exI [of _ p] exI [of _ w2] conjI)
qed

lemma shape_match_numbered:
  assumes "trimmed line" "numbered_line line content"
  shows "match_numbered line = Some content"
proof -
  from assms(2) obtain digits w1 p w2 where line: "line = digits @ w1 @ p # w2 @ content"
    and ds: "digits \<noteq> []" "list_all is_digit digits" and w1: "list_all is_space w1"
    and p: "p = 0x2E \<or> p = 0x29" and w2: "list_all is_space w2"
    and c: "content \<noteq> []" "\<not> is_space (hd content)" "list_all is_dot content"
    unfolding numbered_line_def by blast
  have "\<not> is_digit (hd (w1 @ p # w2 @ content))"
    using w1 p punctuation [OF p] space_not_digit by (cases w1) auto
  with ds(2) have t: "takeWhile is_digit line = digits" "dropWhile is_digit line = w1 @ p # w2 @ content"
    unfolding line by (simp_all add: takeWhile_prefix)
  have s: "dropWhile is_space (w1 @ p # w2 @ content) = p # w2 @ content"
    using w1 punctuation [OF p] by (simp add: takeWhile_prefix)
  have ne: "w2 @ content \<noteq> []" using c(1) by simp
  have "last (w2 @ content) = last line" unfolding line using c(1) by simp
  with assms(1) have l: "\<not> is_space (last (w2 @ content))" by (simp add: trimmed_def)
  have d: "dropWhile is_space (w2 @ content) = content"
    using w2 c(2) by (simp add: takeWhile_prefix)
  have "spaces_content False (w2 @ content) = Some content"
    using c(3) by (simp add: spaces_content_trimmed [OF ne l] d)
  with ds(1) p show ?thesis
    by (simp add: match_numbered_def t s)
qed

lemma match_numbered_iff:
  "trimmed line \<Longrightarrow> match_numbered line = Some content \<longleftrightarrow> numbered_line line content"
  using match_numbered_shape shape_match_numbered by blast

lemmas normalizer_eval =
  normalizeCommitSuggestions_def candidates_def fromNumbered_def fromBullets_def lines_of_def
  match_numbered_def match_bullet_def spaces_content_def match_content_def strip_quotes_def
  fence_def trim_def u_def LF_def CR_def class_defs

text \<open>
  C3, as amended. In the extraction phase a line is captured as a numbered item exactly
  when it is one or more digits, then white space or none, then a full stop or a closing
  parenthesis, then white space or none, then a content that is not empty and holds no
  line terminator; the content is what is captured. The items are the contents of the
  lines captured, in the order of the lines, whatever their numbers. Bulleted extraction
  gives items only when numbered extraction captured nothing.
\<close>

theorem numbered_extraction:
  "(\<forall>line\<in>set (lines_of raw). \<forall>content.
      match_numbered line = Some content \<longleftrightarrow> numbered_line line content) \<and>
   fromNumbered (lines_of raw) =
     map (the \<circ> match_numbered) (filter (\<lambda>line. match_numbered line \<noteq> None) (lines_of raw)) \<and>
   (fromNumbered (lines_of raw) \<noteq> [] \<longrightarrow>
      fromBullets (lines_of raw) = [] \<and> candidates (lines_of raw) = fromNumbered (lines_of raw)) \<and>
   (fromNumbered (lines_of raw) = [] \<longrightarrow>
      candidates (lines_of raw) = List.map_filter match_bullet (lines_of raw))"
proof (intro conjI ballI allI impI)
  fix line content
  assume "line \<in> set (lines_of raw)"
  then have "trimmed line" by (rule lines_of_trimmed)
  then show "match_numbered line = Some content \<longleftrightarrow> numbered_line line content"
    by (rule match_numbered_iff)
next
  show "fromNumbered (lines_of raw) =
     map (the \<circ> match_numbered) (filter (\<lambda>line. match_numbered line \<noteq> None) (lines_of raw))"
    by (simp add: fromNumbered_def List.map_filter_def)
next
  assume "fromNumbered (lines_of raw) \<noteq> []"
  then show "fromBullets (lines_of raw) = []" by (simp add: fromBullets_def)
next
  assume "fromNumbered (lines_of raw) \<noteq> []"
  then show "candidates (lines_of raw) = fromNumbered (lines_of raw)" by (simp add: candidates_def)
next
  assume "fromNumbered (lines_of raw) = []"
  then show "candidates (lines_of raw) = List.map_filter match_bullet (lines_of raw)"
    by (simp add: candidates_def fromBullets_def)
qed

theorem numbered_extraction_witness:
  "u ''10) fix bug'' \<in> set (lines_of (u ''10) fix bug'')) \<and>
   match_numbered (u ''10) fix bug'') = Some (u ''fix bug'') \<and>
   numbered_line (u ''10) fix bug'') (u ''fix bug'') \<and>
   fromNumbered (lines_of (u ''10) fix bug'')) \<noteq> [] \<and>
   fromBullets (lines_of (u ''10) fix bug'')) = [] \<and>
   candidates (lines_of (u ''10) fix bug'')) = [u ''fix bug'']"
proof -
  let ?raw = "u ''10) fix bug''"
  have l: "lines_of ?raw = [?raw]"
    by (simp add: normalizer_eval)
  have m: "match_numbered ?raw = Some (u ''fix bug'')"
    by (simp add: normalizer_eval)
  have f: "fromNumbered (lines_of ?raw) = [u ''fix bug'']"
    by (simp add: l fromNumbered_def m)
  then have n: "fromNumbered (lines_of ?raw) \<noteq> []" by simp
  note T = numbered_extraction [of ?raw]
  have i: "?raw \<in> set (lines_of ?raw)" by (simp add: l)
  have "match_numbered ?raw = Some (u ''fix bug'') \<longleftrightarrow> numbered_line ?raw (u ''fix bug'')"
    using conjunct1 [OF T] i by blast
  with m have s: "numbered_line ?raw (u ''fix bug'')" by (rule iffD1 [rotated])
  have "fromBullets (lines_of ?raw) = [] \<and> candidates (lines_of ?raw) = fromNumbered (lines_of ?raw)"
    using conjunct1 [OF conjunct2 [OF conjunct2 [OF T]]] n by (rule mp)
  then have b: "fromBullets (lines_of ?raw) = []" and c: "candidates (lines_of ?raw) = [u ''fix bug'']"
    by (simp_all add: f)
  from i m s n b c show ?thesis by (intro conjI)
qed

text \<open>
  C3 as stated fails in both directions: \<^verbatim>\<open>1.foo\<close> has no white space after the full stop
  and is captured; a line with a carriage return inside its content has the shape of the
  claim and is not captured.
\<close>

theorem numbered_extraction_counterexample:
  "match_numbered (u ''1.foo'') = Some (u ''foo'') \<and>
   normalizeCommitSuggestions (u ''1.foo'') = [u ''foo''] \<and>
   \<not> claimed_numbered_line (u ''1.foo'') \<and>
   claimed_numbered_line (u ''1. a'' @ CR # u ''b'') \<and>
   lines_of (u ''1. a'' @ CR # u ''b'') = [u ''1. a'' @ CR # u ''b''] \<and>
   match_numbered (u ''1. a'' @ CR # u ''b'') = None"
proof -
  have a: "match_numbered (u ''1.foo'') = Some (u ''foo'')"
    by (simp add: normalizer_eval)
  have b: "normalizeCommitSuggestions (u ''1.foo'') = [u ''foo'']"
    by (simp add: normalizer_eval)
  have c: "\<not> claimed_numbered_line (u ''1.foo'')"
    by (simp add: claimed_numbered_line_def u_def class_defs)
  have d: "claimed_numbered_line (u ''1. a'' @ CR # u ''b'')"
    by (simp add: claimed_numbered_line_def u_def class_defs CR_def)
  have e: "lines_of (u ''1. a'' @ CR # u ''b'') = [u ''1. a'' @ CR # u ''b'']"
    by (simp add: normalizer_eval)
  have f: "match_numbered (u ''1. a'' @ CR # u ''b'') = None"
    by (simp add: normalizer_eval)
  from a b c d e f show ?thesis by (intro conjI)
qed


lemma digit_code_unit: "d < 10 \<Longrightarrow> is_digit (0x30 + of_nat d)"
proof -
  assume "d < 10"
  then have "d = 0 \<or> d = 1 \<or> d = 2 \<or> d = 3 \<or> d = 4 \<or> d = 5 \<or> d = 6 \<or> d = 7 \<or> d = 8 \<or> d = 9"
    by arith
  then show ?thesis by (auto simp add: is_digit_def)
qed

lemma decimal_digits: "decimal n \<noteq> [] \<and> list_all is_digit (decimal n)"
proof (induction n rule: decimal.induct)
  case (1 n)
  show ?case
  proof (cases "n < 10")
    case True
    then show ?thesis by (subst (1 2) decimal.simps) (simp add: digit_code_unit)
  next
    case False
    then have "n mod 10 < 10" by simp
    with False 1 show ?thesis by (subst (1 2) decimal.simps) (simp add: digit_code_unit)
  qed
qed

lemma digit_classes: "is_digit c \<Longrightarrow> \<not> is_space c \<and> is_dot c \<and> c \<noteq> 0x60"
  using space_not_digit [of c] not_space_dot [of c] by (auto simp add: is_digit_def)

lemma dot_not_line_break: "is_dot c \<Longrightarrow> c \<noteq> LF \<and> c \<noteq> CR"
  by (auto simp add: is_dot_def is_line_terminator_def LF_def CR_def)

lemma replaceAll_crlf_id: "CR \<notin> set s \<Longrightarrow> replaceAll_crlf s = s"
  by (induction s rule: replaceAll_crlf.induct) auto

lemma split_lf_single: "LF \<notin> set l \<Longrightarrow> split_lf l = [l]"
  by (induction l) (auto split: list.splits)

lemma split_lf_append: "LF \<notin> set l \<Longrightarrow> split_lf (l @ LF # s) = l # split_lf s"
  by (induction l) (auto split: list.splits)

lemma split_join_lf:
  "ls \<noteq> [] \<Longrightarrow> \<forall>l\<in>set ls. LF \<notin> set l \<Longrightarrow> split_lf (join_lf ls) = ls"
  by (induction ls rule: join_lf.induct) (simp_all add: split_lf_single split_lf_append)

lemma set_join_lf: "set (join_lf ls) \<subseteq> \<Union> (set ` set ls) \<union> {LF}"
  by (induction ls rule: join_lf.induct) auto

lemma strip_trailing_quotes_id:
  "s \<noteq> [] \<Longrightarrow> \<not> is_quote (last s) \<Longrightarrow> strip_trailing_quotes s = s"
proof (induction s)
  case Nil
  then show ?case by simp
next
  case (Cons c cs)
  from Cons.prems have "\<not> list_all is_quote (c # cs)"
    by (metis last_in_set list_all_iff)
  with Cons show ?case by (cases cs) simp_all
qed

lemma strip_quotes_id:
  assumes "s \<noteq> []" "\<not> is_quote (hd s)" "\<not> is_quote (last s)"
  shows "strip_quotes s = s"
proof -
  from assms(1,2) have "dropWhile is_quote s = s" by (cases s) simp_all
  with assms show ?thesis by (simp add: strip_quotes_def strip_trailing_quotes_id)
qed

lemma set_trim: "set (trim s) \<subseteq> set s"
  by (auto simp add: trim_def dest!: set_dropWhileD)

lemma set_strip_trailing_quotes: "set (strip_trailing_quotes s) \<subseteq> set s"
  by (induction s) auto

lemma set_strip_quotes: "set (strip_quotes s) \<subseteq> set s"
  using set_strip_trailing_quotes [of "dropWhile is_quote s"]
  by (auto simp add: strip_quotes_def dest: set_dropWhileD)

lemma backtrack_content_dot:
  "backtrack_content n s = Some c \<Longrightarrow> n \<le> length (takeWhile is_dot s) \<Longrightarrow> list_all is_dot c"
proof (induction n)
  case 0
  then show ?case by simp
next
  case (Suc n)
  show ?case
  proof (cases "list_all is_space (drop (Suc n) s)")
    case True
    with Suc.prems(1) have c: "c = take (Suc n) s" by simp
    have "take (Suc n) s = take (Suc n) (takeWhile is_dot s @ dropWhile is_dot s)" by simp
    also have "\<dots> = take (Suc n) (takeWhile is_dot s)"
      using Suc.prems(2) by (simp del: takeWhile_dropWhile_id)
    finally have "set c \<subseteq> set (takeWhile is_dot s)"
      unfolding c by (metis set_take_subset)
    then show ?thesis by (auto simp add: list_all_iff dest: set_takeWhileD)
  next
    case False
    with Suc show ?thesis by simp
  qed
qed

lemma match_content_dot: "match_content s = Some c \<Longrightarrow> list_all is_dot c"
  by (auto simp add: match_content_def intro: backtrack_content_dot)

lemma backtrack_spaces_dot: "backtrack_spaces one n s = Some c \<Longrightarrow> list_all is_dot c"
  by (induction n) (auto split: if_splits option.splits intro: match_content_dot)

lemma match_numbered_dot: "match_numbered line = Some c \<Longrightarrow> list_all is_dot c"
  by (auto simp add: match_numbered_def spaces_content_def
        split: if_splits list.splits intro: backtrack_spaces_dot)

lemma match_bullet_dot: "match_bullet line = Some c \<Longrightarrow> list_all is_dot c"
  by (auto simp add: match_bullet_def spaces_content_def
        split: if_splits list.splits intro: backtrack_spaces_dot)

lemma backtrack_content_Some:
  "backtrack_content n s = Some c \<Longrightarrow>
   \<exists>m. 0 < m \<and> m \<le> n \<and> c = take m s \<and> list_all is_space (drop m s)"
proof (induction n)
  case 0
  then show ?case by simp
next
  case (Suc n)
  show ?case
  proof (cases "list_all is_space (drop (Suc n) s)")
    case True
    with Suc.prems have "c = take (Suc n) s" by simp
    with True show ?thesis by blast
  next
    case False
    with Suc.prems have "backtrack_content n s = Some c" by simp
    from Suc.IH [OF this] show ?thesis using le_Suc_eq by blast
  qed
qed

lemma backtrack_content_None_iff:
  "backtrack_content n s = None \<longleftrightarrow> (\<forall>m. 0 < m \<and> m \<le> n \<longrightarrow> \<not> list_all is_space (drop m s))"
proof (induction n)
  case 0
  then show ?case by simp
next
  case (Suc n)
  show ?case
  proof (cases "list_all is_space (drop (Suc n) s)")
    case True
    then show ?thesis by auto
  next
    case False
    have "(\<forall>m. 0 < m \<and> m \<le> Suc n \<longrightarrow> \<not> list_all is_space (drop m s)) \<longleftrightarrow>
          (\<forall>m. 0 < m \<and> m \<le> n \<longrightarrow> \<not> list_all is_space (drop m s))"
      using False le_Suc_eq by auto
    with False Suc.IH show ?thesis by simp
  qed
qed

lemma match_content_Some:
  assumes "match_content s = Some c"
  shows "\<exists>w3. s = c @ w3 \<and> c \<noteq> [] \<and> list_all is_dot c \<and> list_all is_space w3"
proof -
  from assms obtain m where m: "0 < m" "m \<le> length (takeWhile is_dot s)" "c = take m s"
    "list_all is_space (drop m s)"
    unfolding match_content_def using backtrack_content_Some by blast
  have "length (takeWhile is_dot s) \<le> length s" by (rule length_takeWhile_le)
  with m(1,2) have "c \<noteq> []" unfolding m(3) by (cases s) auto
  moreover have "s = c @ drop m s" unfolding m(3) by simp
  ultimately show ?thesis using m(4) match_content_dot [OF assms] by blast
qed

lemma match_content_accepts:
  assumes "c \<noteq> []" "list_all is_dot c" "list_all is_space w3"
  shows "match_content (c @ w3) \<noteq> None"
proof -
  have "takeWhile is_dot (c @ w3) = c @ takeWhile is_dot w3"
    using assms(2) by (simp add: list_all_iff)
  then have "length c \<le> length (takeWhile is_dot (c @ w3))" by simp
  moreover have "0 < length c" using assms(1) by simp
  moreover have "list_all is_space (drop (length c) (c @ w3))" using assms(3) by simp
  ultimately show ?thesis
    unfolding match_content_def backtrack_content_None_iff by blast
qed

lemma backtrack_spaces_Some_ex:
  "backtrack_spaces one n s = Some c \<Longrightarrow>
   \<exists>k. k \<le> n \<and> (one \<longrightarrow> 0 < k) \<and> match_content (drop k s) = Some c"
proof (induction n)
  case 0
  then show ?case by (auto split: if_splits)
next
  case (Suc n)
  show ?case
  proof (cases "match_content (drop (Suc n) s)")
    case None
    with Suc.prems have "backtrack_spaces one n s = Some c" by simp
    from Suc.IH [OF this] show ?thesis using le_Suc_eq by blast
  next
    case (Some c')
    with Suc.prems have "c' = c" by simp
    with Some show ?thesis by blast
  qed
qed

lemma backtrack_spaces_None_all:
  "backtrack_spaces one n s = None \<Longrightarrow> k \<le> n \<Longrightarrow> (one \<longrightarrow> 0 < k) \<Longrightarrow>
   match_content (drop k s) = None"
proof (induction n)
  case 0
  then show ?case by (auto split: if_splits)
next
  case (Suc n)
  from Suc.prems(1) have a: "match_content (drop (Suc n) s) = None" "backtrack_spaces one n s = None"
    by (auto split: option.splits)
  show ?case
  proof (cases "k = Suc n")
    case True
    with a show ?thesis by simp
  next
    case False
    with Suc.prems(2) have "k \<le> n" by simp
    from Suc.IH [OF a(2) this Suc.prems(3)] show ?thesis .
  qed
qed

text \<open>
  The two tails accept what \<^verbatim>\<open>\s*(.+)\s*$\<close> and \<^verbatim>\<open>\s+(.+)\s*$\<close> accept, on every string: white
  space (some, for the second), a content that is not empty and holds no line terminator,
  and white space.
\<close>

lemma spaces_content_accepts:
  "(\<exists>c. spaces_content one s = Some c) \<longleftrightarrow>
   (\<exists>w2 c w3. s = w2 @ c @ w3 \<and> list_all is_space w2 \<and> (one \<longrightarrow> w2 \<noteq> []) \<and>
      c \<noteq> [] \<and> list_all is_dot c \<and> list_all is_space w3)"
proof
  assume "\<exists>c. spaces_content one s = Some c"
  then obtain c where "backtrack_spaces one (length (takeWhile is_space s)) s = Some c"
    by (auto simp add: spaces_content_def)
  from backtrack_spaces_Some_ex [OF this]
  obtain k where k: "k \<le> length (takeWhile is_space s)" "one \<longrightarrow> 0 < k"
    and m: "match_content (drop k s) = Some c" by blast
  from match_content_Some [OF m] obtain w3 where w3: "drop k s = c @ w3" "c \<noteq> []"
    "list_all is_dot c" "list_all is_space w3" by blast
  have "take k s = take k (takeWhile is_space s @ dropWhile is_space s)" by simp
  also have "\<dots> = take k (takeWhile is_space s)"
    using k(1) by (simp del: takeWhile_dropWhile_id)
  finally have "set (take k s) \<subseteq> set (takeWhile is_space s)"
    by (metis set_take_subset)
  then have sp: "list_all is_space (take k s)"
    by (auto simp add: list_all_iff dest: set_takeWhileD)
  have "k \<le> length s" using k(1) length_takeWhile_le [of is_space s] by simp
  with k(2) have ne: "one \<longrightarrow> take k s \<noteq> []" by (cases s) auto
  have "s = take k s @ c @ w3" using w3(1) by (metis append_take_drop_id)
  with sp ne w3 show "\<exists>w2 c w3. s = w2 @ c @ w3 \<and> list_all is_space w2 \<and> (one \<longrightarrow> w2 \<noteq> []) \<and>
      c \<noteq> [] \<and> list_all is_dot c \<and> list_all is_space w3" by blast
next
  assume "\<exists>w2 c w3. s = w2 @ c @ w3 \<and> list_all is_space w2 \<and> (one \<longrightarrow> w2 \<noteq> []) \<and>
      c \<noteq> [] \<and> list_all is_dot c \<and> list_all is_space w3"
  then obtain w2 c w3 where s: "s = w2 @ c @ w3" and w2: "list_all is_space w2" "one \<longrightarrow> w2 \<noteq> []"
    and c: "c \<noteq> []" "list_all is_dot c" "list_all is_space w3" by blast
  have "takeWhile is_space s = w2 @ takeWhile is_space (c @ w3)"
    unfolding s using w2(1) by (simp add: list_all_iff)
  then have k: "length w2 \<le> length (takeWhile is_space s)" by simp
  have d: "drop (length w2) s = c @ w3" unfolding s by simp
  have nn: "match_content (drop (length w2) s) \<noteq> None"
    unfolding d using c by (rule match_content_accepts)
  have pos: "one \<longrightarrow> 0 < length w2" using w2(2) by simp
  have "backtrack_spaces one (length (takeWhile is_space s)) s \<noteq> None"
  proof
    assume n: "backtrack_spaces one (length (takeWhile is_space s)) s = None"
    have "match_content (drop (length w2) s) = None"
      using n k pos by (rule backtrack_spaces_None_all)
    with nn show False by simp
  qed
  then show "\<exists>c. spaces_content one s = Some c" by (auto simp add: spaces_content_def)
qed

text \<open>
  \<open>match_numbered\<close> and \<open>match_bullet\<close> accept the strings their patterns accept.
\<close>

lemma match_numbered_accepts:
  "(\<exists>c. match_numbered line = Some c) \<longleftrightarrow>
   (\<exists>digits w1 p w2 c w3.
      line = digits @ w1 @ p # w2 @ c @ w3 \<and> digits \<noteq> [] \<and> list_all is_digit digits \<and>
      list_all is_space w1 \<and> (p = 0x2E \<or> p = 0x29) \<and> list_all is_space w2 \<and>
      c \<noteq> [] \<and> list_all is_dot c \<and> list_all is_space w3)"
proof
  assume "\<exists>c. match_numbered line = Some c"
  then obtain c where m: "match_numbered line = Some c" by blast
  define ds where "ds = takeWhile is_digit line"
  define r1 where "r1 = dropWhile is_digit line"
  define w1 where "w1 = takeWhile is_space r1"
  define r2 where "r2 = dropWhile is_space r1"
  have e: "(if ds = [] then None
            else (case r2 of [] \<Rightarrow> None
                  | p # rest \<Rightarrow> if p = 0x2E \<or> p = 0x29 then spaces_content False rest else None)) =
           Some c"
    using m unfolding match_numbered_def ds_def r1_def r2_def .
  then have ds: "ds \<noteq> []" by (cases "ds = []") simp_all
  from e ds obtain p rest where r2: "r2 = p # rest" by (cases r2) simp_all
  from e ds r2 have p: "p = 0x2E \<or> p = 0x29" by (cases "p = 0x2E \<or> p = 0x29") simp_all
  from e ds r2 p have "spaces_content False rest = Some c" by simp
  then have "\<exists>c. spaces_content False rest = Some c" by blast
  then obtain w2 c' w3 where rest: "rest = w2 @ c' @ w3" "list_all is_space w2"
    "c' \<noteq> []" "list_all is_dot c'" "list_all is_space w3"
    unfolding spaces_content_accepts by blast
  have "line = ds @ r1" by (simp add: ds_def r1_def)
  moreover have "r1 = w1 @ r2" by (simp add: w1_def r2_def)
  ultimately have "line = ds @ w1 @ p # w2 @ c' @ w3" using r2 rest(1) by simp
  moreover have "list_all is_digit ds" "list_all is_space w1"
    by (auto simp add: ds_def w1_def list_all_iff dest: set_takeWhileD)
  ultimately show "\<exists>digits w1 p w2 c w3.
      line = digits @ w1 @ p # w2 @ c @ w3 \<and> digits \<noteq> [] \<and> list_all is_digit digits \<and>
      list_all is_space w1 \<and> (p = 0x2E \<or> p = 0x29) \<and> list_all is_space w2 \<and>
      c \<noteq> [] \<and> list_all is_dot c \<and> list_all is_space w3"
    using ds p rest(2-5) by blast
next
  assume "\<exists>digits w1 p w2 c w3.
      line = digits @ w1 @ p # w2 @ c @ w3 \<and> digits \<noteq> [] \<and> list_all is_digit digits \<and>
      list_all is_space w1 \<and> (p = 0x2E \<or> p = 0x29) \<and> list_all is_space w2 \<and>
      c \<noteq> [] \<and> list_all is_dot c \<and> list_all is_space w3"
  then obtain digits w1 p w2 c w3 where line: "line = digits @ w1 @ p # w2 @ c @ w3"
    and ds: "digits \<noteq> []" "list_all is_digit digits" and w1: "list_all is_space w1"
    and p: "p = 0x2E \<or> p = 0x29" and r: "list_all is_space w2" "c \<noteq> []" "list_all is_dot c"
      "list_all is_space w3"
    by blast
  have "\<not> is_digit (hd (w1 @ p # w2 @ c @ w3))"
    using w1 p punctuation [OF p] space_not_digit by (cases w1) auto
  with ds(2) have t: "takeWhile is_digit line = digits"
    "dropWhile is_digit line = w1 @ p # w2 @ c @ w3"
    unfolding line by (simp_all add: takeWhile_prefix)
  have s: "dropWhile is_space (w1 @ p # w2 @ c @ w3) = p # w2 @ c @ w3"
    using w1 punctuation [OF p] by (simp add: takeWhile_prefix)
  have "\<exists>c'. spaces_content False (w2 @ c @ w3) = Some c'"
    unfolding spaces_content_accepts using r by blast
  then obtain c' where "spaces_content False (w2 @ c @ w3) = Some c'" by blast
  with ds(1) p have "match_numbered line = Some c'"
    by (simp add: match_numbered_def t s)
  then show "\<exists>c. match_numbered line = Some c" by blast
qed

lemma match_bullet_accepts:
  "(\<exists>c. match_bullet line = Some c) \<longleftrightarrow>
   (\<exists>b w2 c w3.
      line = b # w2 @ c @ w3 \<and> (b = 0x2D \<or> b = 0x2A) \<and> list_all is_space w2 \<and> w2 \<noteq> [] \<and>
      c \<noteq> [] \<and> list_all is_dot c \<and> list_all is_space w3)"
proof (cases line)
  case Nil
  then show ?thesis by (simp add: match_bullet_def)
next
  case (Cons b rest)
  show ?thesis
  proof (cases "b = 0x2D \<or> b = 0x2A")
    case False
    with Cons show ?thesis by (auto simp add: match_bullet_def)
  next
    case True
    with Cons have "(\<exists>c. match_bullet line = Some c) \<longleftrightarrow> (\<exists>c. spaces_content True rest = Some c)"
      by (simp add: match_bullet_def)
    also have "\<dots> \<longleftrightarrow> (\<exists>w2 c w3. rest = w2 @ c @ w3 \<and> list_all is_space w2 \<and> w2 \<noteq> [] \<and>
      c \<noteq> [] \<and> list_all is_dot c \<and> list_all is_space w3)"
      unfolding spaces_content_accepts by simp
    finally show ?thesis using Cons True by auto
  qed
qed

lemma set_map_filter: "set (List.map_filter f xs) = {y. \<exists>x\<in>set xs. f x = Some y}"
  by (induction xs) (auto simp add: List.map_filter_simps split: option.splits)

lemma candidates_dot: "c \<in> set (candidates lines) \<Longrightarrow> list_all is_dot c"
  by (auto simp add: candidates_def fromNumbered_def fromBullets_def set_map_filter
        split: if_splits intro: match_numbered_dot match_bullet_dot)

lemma normalized_message:
  assumes "m \<in> set (normalizeCommitSuggestions raw)"
  shows "trimmed m" "list_all is_dot m"
proof -
  from assms obtain c where c: "c \<in> set (candidates (lines_of raw))"
    and m: "m = trim (strip_quotes c)" and ne: "m \<noteq> []"
    by (auto simp add: normalizeCommitSuggestions_def)
  from ne show "trimmed m"
    unfolding m trimmed_def using trim_hd trim_last by blast
  have "set m \<subseteq> set c"
    unfolding m using set_trim set_strip_quotes by blast
  with candidates_dot [OF c] show "list_all is_dot m"
    by (auto simp add: list_all_iff)
qed

lemma numbered_output_numbered:
  "numbered_output suggestions = join_lf (map (\<lambda>(idx, s). numbered idx s) (enumerate 0 suggestions))"
  by (simp add: numbered_output_def numbered_def)

lemma u_separator: "u ''. '' = [0x2E, 0x20]"
  by (simp add: u_def)

lemma numbered_hd: "hd (numbered idx m) = hd (decimal (idx + 1))" "is_digit (hd (numbered idx m))"
proof -
  from decimal_digits [of "idx + 1"] obtain d ds where d: "decimal (idx + 1) = d # ds" "is_digit d"
    by (cases "decimal (idx + 1)") auto
  then show "hd (numbered idx m) = hd (decimal (idx + 1))" "is_digit (hd (numbered idx m))"
    by (simp_all add: numbered_def)
qed

lemma numbered_trimmed:
  assumes "trimmed m"
  shows "trimmed (numbered idx m)"
proof -
  from assms have "last (numbered idx m) = last m"
    by (simp add: numbered_def trimmed_def)
  with assms numbered_hd(2) [of idx m] digit_classes show ?thesis
    by (auto simp add: trimmed_def numbered_def)
qed

lemma numbered_set:
  assumes "list_all is_dot m"
  shows "LF \<notin> set (numbered idx m)" "CR \<notin> set (numbered idx m)"
proof -
  have "list_all is_dot (decimal (idx + 1))"
    using decimal_digits [of "idx + 1"] digit_classes by (auto simp add: list_all_iff)
  moreover have "list_all is_dot (u ''. '')"
    by (simp add: u_separator is_dot_def is_line_terminator_def)
  ultimately have "list_all is_dot (numbered idx m)"
    using assms by (simp add: numbered_def)
  then show "LF \<notin> set (numbered idx m)" "CR \<notin> set (numbered idx m)"
    using dot_not_line_break by (auto simp add: list_all_iff)
qed

lemma numbered_not_fence:
  "numbered idx m \<noteq> fence" "\<not> prefix fence (numbered idx m)"
proof -
  from numbered_hd(2) [of idx m] have h: "hd (numbered idx m) \<noteq> 0x60"
    using digit_classes by blast
  then show "numbered idx m \<noteq> fence" by (auto simp add: fence_def)
  from h show "\<not> prefix fence (numbered idx m)"
    by (cases "numbered idx m") (auto simp add: fence_def)
qed

lemma numbered_match:
  assumes "trimmed m" "list_all is_dot m"
  shows "match_numbered (numbered idx m) = Some m"
proof -
  have "numbered_line (numbered idx m) m"
    unfolding numbered_line_def
  proof (intro exI conjI)
    show "numbered idx m = decimal (idx + 1) @ [] @ 0x2E # [0x20] @ m"
      by (simp add: numbered_def u_separator)
    show "decimal (idx + 1) \<noteq> []" "list_all is_digit (decimal (idx + 1))"
      using decimal_digits by simp_all
    show "list_all is_space []" by simp
    show "(0x2E :: code_unit) = 0x2E \<or> (0x2E :: code_unit) = 0x29" by simp
    show "list_all is_space [0x20]" by (simp add: is_space_def)
    show "m \<noteq> []" "\<not> is_space (hd m)" using assms(1) by (simp_all add: trimmed_def)
    show "list_all is_dot m" by (rule assms(2))
  qed
  with numbered_trimmed [OF assms(1)] show ?thesis
    by (simp add: match_numbered_iff)
qed

text \<open>What the lines of a normalized list, numbered and joined, are read back as.\<close>

lemma lines_of_join_lf:
  assumes "ls \<noteq> []"
    and "\<forall>l\<in>set ls. trimmed l \<and> LF \<notin> set l \<and> CR \<notin> set l \<and> l \<noteq> fence \<and> \<not> prefix fence l"
  shows "lines_of (join_lf ls) = ls"
proof -
  have "CR \<notin> set (join_lf ls)"
    using set_join_lf [of ls] assms(2) by (auto simp add: LF_def CR_def)
  then have "replaceAll_crlf (join_lf ls) = join_lf ls" by (rule replaceAll_crlf_id)
  moreover have "split_lf (join_lf ls) = ls"
    using assms by (intro split_join_lf) simp_all
  moreover have "map trim ls = ls"
    using assms(2) by (intro map_idI) (simp add: trim_id trimmed_def)
  moreover have "filter (\<lambda>line. length line > 0) ls = ls"
    using assms(2) by (auto simp add: trimmed_def)
  moreover have "filter (\<lambda>line. \<not> (line = fence \<or> prefix fence line)) ls = ls"
    using assms(2) by auto
  ultimately show ?thesis by (simp add: lines_of_def)
qed

lemma fromNumbered_numbered:
  "\<forall>m\<in>set ms. trimmed m \<and> list_all is_dot m \<Longrightarrow>
   fromNumbered (map (\<lambda>(idx, s). numbered idx s) (enumerate n ms)) = ms"
  by (induction ms arbitrary: n)
     (simp_all add: fromNumbered_def List.map_filter_simps numbered_match)

lemma numbered_lines_ok:
  assumes "\<forall>m\<in>set ms. trimmed m \<and> list_all is_dot m"
  shows "\<forall>l\<in>set (map (\<lambda>(idx, s). numbered idx s) (enumerate n ms)).
           trimmed l \<and> LF \<notin> set l \<and> CR \<notin> set l \<and> l \<noteq> fence \<and> \<not> prefix fence l"
proof
  fix l
  assume "l \<in> set (map (\<lambda>(idx, s). numbered idx s) (enumerate n ms))"
  then obtain idx m where l: "l = numbered idx m" and "(idx, m) \<in> set (enumerate n ms)"
    by auto
  then have "m \<in> set ms" by (auto simp add: in_set_enumerate_eq)
  with assms have "trimmed m" "list_all is_dot m" by simp_all
  then show "trimmed l \<and> LF \<notin> set l \<and> CR \<notin> set l \<and> l \<noteq> fence \<and> \<not> prefix fence l"
    unfolding l using numbered_trimmed numbered_set numbered_not_fence by blast
qed

lemma renormalize:
  assumes "\<forall>m\<in>set ms. trimmed m \<and> list_all is_dot m"
  shows "normalizeCommitSuggestions (numbered_output ms) =
           filter (\<lambda>message. length message > 0) (map (\<lambda>message. trim (strip_quotes message)) ms)"
proof (cases "ms = []")
  case True
  then show ?thesis
    by (simp add: numbered_output_numbered normalizeCommitSuggestions_def candidates_def
          fromNumbered_def fromBullets_def lines_of_def trim_def List.map_filter_simps)
next
  case False
  let ?ls = "map (\<lambda>(idx, s). numbered idx s) (enumerate 0 ms)"
  from False have "?ls \<noteq> []" by (cases ms) simp_all
  then have "lines_of (join_lf ?ls) = ?ls"
    using numbered_lines_ok [OF assms, of 0] by (rule lines_of_join_lf)
  moreover have "fromNumbered ?ls = ms"
    using assms by (rule fromNumbered_numbered)
  ultimately have "candidates (lines_of (numbered_output ms)) = ms"
    using False by (simp add: numbered_output_numbered candidates_def)
  then show ?thesis by (simp add: normalizeCommitSuggestions_def)
qed

text \<open>
  C8, as amended. Normalizing the numbered output of a normalized list strips the quotes
  of each message and trims it once more, and drops the messages this leaves empty. It
  gives the same messages in the same order whenever no message of the list begins or
  ends with a quote character.
\<close>

theorem renormalize_numbered_output:
  "normalizeCommitSuggestions (numbered_output (normalizeCommitSuggestions raw)) =
     filter (\<lambda>message. length message > 0)
       (map (\<lambda>message. trim (strip_quotes message)) (normalizeCommitSuggestions raw)) \<and>
   ((\<forall>m\<in>set (normalizeCommitSuggestions raw). \<not> is_quote (hd m) \<and> \<not> is_quote (last m)) \<longrightarrow>
      normalizeCommitSuggestions (numbered_output (normalizeCommitSuggestions raw)) =
        normalizeCommitSuggestions raw)"
proof (intro conjI impI)
  let ?ms = "normalizeCommitSuggestions raw"
  have ok: "\<forall>m\<in>set ?ms. trimmed m \<and> list_all is_dot m"
    using normalized_message by blast
  then show r: "normalizeCommitSuggestions (numbered_output ?ms) =
     filter (\<lambda>message. length message > 0) (map (\<lambda>message. trim (strip_quotes message)) ?ms)"
    by (rule renormalize)
  assume q: "\<forall>m\<in>set ?ms. \<not> is_quote (hd m) \<and> \<not> is_quote (last m)"
  have "trim (strip_quotes m) = m" if "m \<in> set ?ms" for m
  proof -
    from that ok have t: "trimmed m" by simp
    with that q have "strip_quotes m = m"
      by (intro strip_quotes_id) (simp_all add: trimmed_def)
    with t show ?thesis by (simp add: trim_id trimmed_def)
  qed
  then have "map (\<lambda>message. trim (strip_quotes message)) ?ms = ?ms"
    by (intro map_idI)
  moreover have "filter (\<lambda>message. length message > 0) ?ms = ?ms"
    using ok by (auto simp add: trimmed_def)
  ultimately show "normalizeCommitSuggestions (numbered_output ?ms) = ?ms"
    using r by simp
qed

lemmas output_eval = numbered_output_def enumerate_eq_zip decimal.simps join_lf.simps

theorem renormalize_numbered_output_witness:
  "normalizeCommitSuggestions (u ''1. fix: add foo'' @ LF # u ''2. feat: add foo'') =
     [u ''fix: add foo'', u ''feat: add foo''] \<and>
   numbered_output [u ''fix: add foo'', u ''feat: add foo''] =
     u ''1. fix: add foo'' @ LF # u ''2. feat: add foo'' \<and>
   normalizeCommitSuggestions
     (numbered_output (normalizeCommitSuggestions (u ''1. fix: add foo'' @ LF # u ''2. feat: add foo''))) =
     [u ''fix: add foo'', u ''feat: add foo'']"
proof -
  let ?raw = "u ''1. fix: add foo'' @ LF # u ''2. feat: add foo''"
  have n: "normalizeCommitSuggestions ?raw = [u ''fix: add foo'', u ''feat: add foo'']"
    by (simp add: normalizer_eval)
  have o: "numbered_output [u ''fix: add foo'', u ''feat: add foo''] = ?raw"
    by (simp add: output_eval u_def LF_def)
  have q: "\<forall>m\<in>set (normalizeCommitSuggestions ?raw). \<not> is_quote (hd m) \<and> \<not> is_quote (last m)"
    unfolding n by (simp add: u_def is_quote_def)
  have "normalizeCommitSuggestions (numbered_output (normalizeCommitSuggestions ?raw)) =
          normalizeCommitSuggestions ?raw"
    using conjunct2 [OF renormalize_numbered_output [of ?raw]] q by (rule mp)
  then have "normalizeCommitSuggestions (numbered_output (normalizeCommitSuggestions ?raw)) =
          [u ''fix: add foo'', u ''feat: add foo'']"
    by (simp only: n)
  with n o show ?thesis by (intro conjI)
qed

text \<open>
  C8 as stated fails: the reply \<^verbatim>\<open>1. " 'a' "\<close> is normalized to the message \<^verbatim>\<open>'a'\<close>, quotes
  included, and the output \<^verbatim>\<open>1. 'a'\<close> to the message \<^verbatim>\<open>a\<close>.
\<close>

theorem renormalize_counterexample:
  "normalizeCommitSuggestions (u ''1. '' @ [0x22, 0x20, 0x27] @ u ''a'' @ [0x27, 0x20, 0x22]) =
     [0x27 # u ''a'' @ [0x27]] \<and>
   numbered_output [0x27 # u ''a'' @ [0x27]] = u ''1. '' @ 0x27 # u ''a'' @ [0x27] \<and>
   normalizeCommitSuggestions (u ''1. '' @ 0x27 # u ''a'' @ [0x27]) = [u ''a''] \<and>
   normalizeCommitSuggestions
     (numbered_output
       (normalizeCommitSuggestions (u ''1. '' @ [0x22, 0x20, 0x27] @ u ''a'' @ [0x27, 0x20, 0x22]))) \<noteq>
     normalizeCommitSuggestions (u ''1. '' @ [0x22, 0x20, 0x27] @ u ''a'' @ [0x27, 0x20, 0x22])"
proof -
  let ?raw = "u ''1. '' @ [0x22, 0x20, 0x27] @ u ''a'' @ [0x27, 0x20, 0x22]"
  have a: "normalizeCommitSuggestions ?raw = [0x27 # u ''a'' @ [0x27]]"
    by (simp add: normalizer_eval)
  have b: "numbered_output [0x27 # u ''a'' @ [0x27]] = u ''1. '' @ 0x27 # u ''a'' @ [0x27]"
    by (simp add: output_eval u_def)
  have c: "normalizeCommitSuggestions (u ''1. '' @ 0x27 # u ''a'' @ [0x27]) = [u ''a'']"
    by (simp add: normalizer_eval)
  have d: "normalizeCommitSuggestions (numbered_output (normalizeCommitSuggestions ?raw)) \<noteq>
           normalizeCommitSuggestions ?raw"
    unfolding a b c by (simp add: u_def)
  from a b c d show ?thesis by (intro conjI)
qed

section \<open>Rendering the prompt: what the code does with a dollar sign\<close>

text \<open>
  The index found is that of the first occurrence of the pattern, and a diff that holds
  no dollar sign is inserted as it is, once, in the place of that occurrence.
\<close>

lemma get_substitution_plain:
  "0x24 \<notin> set r \<Longrightarrow> get_substitution matched str position r = r"
  by (induction matched str position r rule: get_substitution.induct) auto

lemma index_of_first:
  "index_of pat s = Some i \<Longrightarrow> prefix pat (drop i s) \<and> (\<forall>j<i. \<not> prefix pat (drop j s))"
proof (induction s arbitrary: i)
  case Nil
  then show ?case by (simp split: if_splits)
next
  case (Cons c cs)
  show ?case
  proof (cases "prefix pat (c # cs)")
    case True
    with Cons.prems show ?thesis by simp
  next
    case False
    with Cons.prems obtain k where k: "index_of pat cs = Some k" "i = Suc k" by auto
    from Cons.IH [OF k(1)] have p: "prefix pat (drop k cs)" and n: "\<forall>j<k. \<not> prefix pat (drop j cs)"
      by simp_all
    have "\<not> prefix pat (drop j (c # cs))" if "j < Suc k" for j
      using that False n by (cases j) simp_all
    with p k(2) show ?thesis by simp
  qed
qed

lemma rendered_template_plain:
  assumes "0x24 \<notin> set diff"
  shows "rendered_template template diff =
           (case index_of placeholder template of
              None \<Rightarrow> template
            | Some i \<Rightarrow> take i template @ diff @ drop (i + length placeholder) template)"
  using assms by (simp add: rendered_template_def replace_def get_substitution_plain split: option.splits)

text \<open>
  C4. The diff is not inserted as it is: \<^verbatim>\<open>template.replace("{{diff}}", diff)\<close> expands the
  replacement patterns of the diff. With the template \<^verbatim>\<open>Summarize: {{diff}}\<close>, the diff
  \<^verbatim>\<open>+echo $$\<close> is rendered with one dollar sign, and the diff \<^verbatim>\<open>+x = $&\<close> with the
  placeholder itself in the place of \<^verbatim>\<open>$&\<close>.
\<close>

theorem rendered_template_expands_dollar_patterns:
  "rendered_template (u ''Summarize: {{diff}}'') (u ''+echo $$'') = u ''Summarize: +echo $'' \<and>
   rendered_template (u ''Summarize: {{diff}}'') (u ''+x = $&'') = u ''Summarize: +x = {{diff}}''"
  by (simp add: rendered_template_def replace_def placeholder_def u_def)

section \<open>The configuration store: lemmas\<close>

lemmas key_defs = OPENAI_API_KEY_def OPENAI_API_BASE_def OPENAI_MODEL_def model_def templates_def default_def

lemma keys_distinct:
  "OPENAI_API_KEY \<noteq> OPENAI_API_BASE" "OPENAI_API_KEY \<noteq> model" "OPENAI_API_KEY \<noteq> templates"
  "OPENAI_API_BASE \<noteq> model" "OPENAI_API_BASE \<noteq> templates" "model \<noteq> templates"
  "OPENAI_API_BASE \<noteq> OPENAI_API_KEY" "model \<noteq> OPENAI_API_KEY" "templates \<noteq> OPENAI_API_KEY"
  "model \<noteq> OPENAI_API_BASE" "templates \<noteq> OPENAI_API_BASE" "templates \<noteq> model"
  by (simp_all add: key_defs u_def)

lemma override_frame:
  "config_file (snd (override name key cw)) = config_file (snd cw)"
  "env (snd (override name key cw)) = env (snd cw)"
  "files (snd (override name key cw)) = files (snd cw)"
  by (cases cw; cases "fst cw"; simp add: override_def split: option.splits)+

lemma override_deref:
  "deref (snd (override name key cw)) (fst (override name key cw)) =
     (case env (snd cw) name of
        None \<Rightarrow> deref (snd cw) (fst cw)
      | Some v \<Rightarrow> if v = [] then deref (snd cw) (fst cw) else fmupd key (JStr v) (deref (snd cw) (fst cw)))"
  by (cases cw; cases "fst cw"; simp add: override_def split: option.splits)

lemma override_ref:
  "fst (override name key cw) = Shared \<longleftrightarrow> fst cw = Shared"
  by (cases cw; cases "fst cw"; simp add: override_def split: option.splits)

lemma override_default:
  "DEFAULT_CONFIG (snd (override name key cw)) =
     (if fst cw = Shared then deref (snd (override name key cw)) (fst (override name key cw))
      else DEFAULT_CONFIG (snd cw))"
  by (cases cw; cases "fst cw"; simp add: override_def split: option.splits)

lemma readConfigFile_unfold:
  "readConfigFile w =
     (case config_file w of
        Unparsable \<Rightarrow> (Inl SyntaxError, w)
      | Absent \<Rightarrow> (Inr (fst (overrides (Shared, w))), snd (overrides (Shared, w)))
      | Parsed j \<Rightarrow> (Inr (fst (overrides (Own (DEFAULT_CONFIG w ++\<^sub>f own_properties j), w))),
                     snd (overrides (Own (DEFAULT_CONFIG w ++\<^sub>f own_properties j), w))))"
  by (simp add: readConfigFile_def split_beta split: persisted.splits)

lemma overrides_frame:
  "config_file (snd (overrides cw)) = config_file (snd cw)"
  "env (snd (overrides cw)) = env (snd cw)"
  "files (snd (overrides cw)) = files (snd cw)"
  by (simp_all add: overrides_def override_frame)

lemma overrides_ref: "fst (overrides cw) = Shared \<longleftrightarrow> fst cw = Shared"
  by (simp add: overrides_def override_ref)

lemma overrides_lookup:
  "fmlookup (deref (snd (overrides cw)) (fst (overrides cw))) key =
     (case env_override (snd cw) key of
        Some v \<Rightarrow> Some (JStr v)
      | None \<Rightarrow> fmlookup (deref (snd cw) (fst cw)) key)"
  using keys_distinct
  by (simp add: overrides_def override_deref override_frame env_override_def
           split: option.splits)

lemma overrides_default:
  "DEFAULT_CONFIG (snd (overrides cw)) =
     (if fst cw = Shared then deref (snd (overrides cw)) (fst (overrides cw))
      else DEFAULT_CONFIG (snd cw))"
  by (simp add: overrides_def override_default override_ref)

lemma loaded_lookup:
  assumes "config_file w \<noteq> Unparsable"
  shows "\<exists>c. loaded w = Some c \<and>
           (\<forall>key. fmlookup c key =
              (case env_override w key of
                 Some v \<Rightarrow> Some (JStr v)
               | None \<Rightarrow> (case persisted_value w key of
                            Some v \<Rightarrow> Some v
                          | None \<Rightarrow> fmlookup (DEFAULT_CONFIG w) key)))"
  using assms
  by (cases "config_file w")
     (auto simp add: loaded_def readConfigFile_unfold overrides_lookup persisted_value_def
          fmlookup_dom_iff split: option.splits)

lemma env_override_known: "env_override w key = Some v \<Longrightarrow> key |\<in>| known_keys"
  by (simp add: env_override_def known_keys_def split: if_splits)

lemma overrides_dom:
  "key |\<in>| fmdom (deref (snd (overrides cw)) (fst (overrides cw))) \<longleftrightarrow>
     key |\<in>| fmdom (deref (snd cw) (fst cw)) \<or> env_override (snd cw) key \<noteq> None"
proof (cases "env_override (snd cw) key")
  case None
  then show ?thesis by (simp add: fmlookup_dom_iff overrides_lookup)
next
  case (Some v)
  then show ?thesis by (simp add: fmlookup_dom_iff overrides_lookup)
qed

lemma overrides_default_dom:
  assumes "fmdom (DEFAULT_CONFIG (snd cw)) = known_keys"
  shows "fmdom (DEFAULT_CONFIG (snd (overrides cw))) = known_keys"
proof (cases "fst cw = Shared")
  case True
  then have d: "deref (snd cw) (fst cw) = DEFAULT_CONFIG (snd cw)" by simp
  have "key |\<in>| fmdom (deref (snd (overrides cw)) (fst (overrides cw))) \<longleftrightarrow> key |\<in>| known_keys"
    for key
    using env_override_known [of "snd cw" key] assms
    unfolding overrides_dom d by blast
  then have "fmdom (deref (snd (overrides cw)) (fst (overrides cw))) = known_keys"
    by (intro fset_eqI)
  with True show ?thesis by (simp add: overrides_default)
next
  case False
  with assms show ?thesis by (simp add: overrides_default)
qed

lemma readConfigFile_default_dom:
  assumes "fmdom (DEFAULT_CONFIG w) = known_keys"
  shows "fmdom (DEFAULT_CONFIG (snd (readConfigFile w))) = known_keys"
  using assms overrides_default_dom [of "(Shared, w)"]
    overrides_default_dom [of "(Own c, w)" for c]
  by (simp add: readConfigFile_unfold split: persisted.splits)

lemma readConfigFile_frame:
  "config_file (snd (readConfigFile w)) = config_file w"
  "env (snd (readConfigFile w)) = env w"
  "files (snd (readConfigFile w)) = files w"
  by (simp_all add: readConfigFile_unfold overrides_frame split: persisted.splits)

lemma readConfigFile_fails: "(\<exists>e. fst (readConfigFile w) = Inl e) \<longleftrightarrow> config_file w = Unparsable"
  by (simp add: readConfigFile_unfold split: persisted.splits)

lemma readConfigFile_error: "fst (readConfigFile w) = Inl e \<Longrightarrow> e = SyntaxError"
  by (simp add: readConfigFile_unfold split: persisted.splits)

lemma validateKeys_first:
  "\<exists>key\<in>set keys. key |\<notin>| fmdom defaults \<Longrightarrow>
   validateKeys defaults keys =
     Some (InvalidConfigProperty (hd (filter (\<lambda>key. key |\<notin>| fmdom defaults) keys)))"
  by (induction keys) auto

lemma validateKeys_None: "validateKeys defaults keys = None \<longleftrightarrow> (\<forall>key\<in>set keys. key |\<in>| fmdom defaults)"
  by (induction keys) auto

text \<open>
  C7. \<^verbatim>\<open>setConfigs\<close> throws whenever a key of its update list is none of the four fields of
  the configuration, and then writes nothing: the persisted file is what it was. The
  error names the first such key; it is the parse error when the persisted file does not
  parse, which \<^verbatim>\<open>readConfigFile\<close> finds first. The four fields are the keys of
  \<^verbatim>\<open>DEFAULT_CONFIG\<close>, which no function of the module adds to or removes.
\<close>

theorem setConfigs_rejects_unknown_field:
  assumes "fmdom (DEFAULT_CONFIG w) = known_keys"
    and "\<exists>key\<in>set (map fst keyValues). key |\<notin>| known_keys"
  shows "fst (setConfigs keyValues w) =
           Some (if config_file w = Unparsable then SyntaxError
                 else InvalidConfigProperty
                        (hd (filter (\<lambda>key. key |\<notin>| known_keys) (map fst keyValues)))) \<and>
         config_file (snd (setConfigs keyValues w)) = config_file w"
proof (cases "readConfigFile w")
  case (Pair res w1)
  have w1: "w1 = snd (readConfigFile w)" using Pair by simp
  have dom1: "fmdom (DEFAULT_CONFIG w1) = known_keys"
    unfolding w1 using assms(1) by (rule readConfigFile_default_dom)
  have file1: "config_file w1 = config_file w"
    unfolding w1 by (rule readConfigFile_frame)
  show ?thesis
  proof (cases res)
    case (Inl e)
    with Pair have "fst (readConfigFile w) = Inl e" by simp
    then have "e = SyntaxError" "config_file w = Unparsable"
      using readConfigFile_error readConfigFile_fails by blast+
    with Pair Inl file1 show ?thesis by (simp add: setConfigs_def)
  next
    case (Inr config)
    with Pair have "\<not> (\<exists>e. fst (readConfigFile w) = Inl e)" by simp
    then have ok: "config_file w \<noteq> Unparsable" by (simp add: readConfigFile_fails)
    have "validateKeys (DEFAULT_CONFIG w1) (map fst keyValues) =
            Some (InvalidConfigProperty
                    (hd (filter (\<lambda>key. key |\<notin>| fmdom (DEFAULT_CONFIG w1)) (map fst keyValues))))"
      using assms(2) dom1 by (intro validateKeys_first) simp
    with Pair Inr ok dom1 file1 show ?thesis by (simp add: setConfigs_def)
  qed
qed

lemma DEFAULT_CONFIG_literal_dom: "fmdom (DEFAULT_CONFIG_literal template_path) = known_keys"
  by (simp add: DEFAULT_CONFIG_literal_def known_keys_def)

theorem setConfigs_rejects_unknown_field_witness:
  "fmdom (DEFAULT_CONFIG (initial_world (u ''/t'') Absent Map.empty Map.empty)) = known_keys \<and>
   (\<exists>key\<in>set (map fst [(model, JStr (u ''x'')), (u ''apiKey'', JStr (u ''k''))]).
      key |\<notin>| known_keys) \<and>
   fst (setConfigs [(model, JStr (u ''x'')), (u ''apiKey'', JStr (u ''k''))]
          (initial_world (u ''/t'') Absent Map.empty Map.empty)) =
     Some (InvalidConfigProperty (u ''apiKey'')) \<and>
   config_file (snd (setConfigs [(model, JStr (u ''x'')), (u ''apiKey'', JStr (u ''k''))]
          (initial_world (u ''/t'') Absent Map.empty Map.empty))) = Absent"
proof -
  have h1: "fmdom (DEFAULT_CONFIG (initial_world (u ''/t'') Absent Map.empty Map.empty)) = known_keys"
    by (simp add: initial_world_def DEFAULT_CONFIG_literal_dom)
  have h2: "\<exists>key\<in>set (map fst [(model, JStr (u ''x'')), (u ''apiKey'', JStr (u ''k''))]).
      key |\<notin>| known_keys"
    by (simp add: known_keys_def key_defs u_def)
  have h3: "config_file (initial_world (u ''/t'') Absent Map.empty Map.empty) = Absent"
    by (simp add: initial_world_def)
  show ?thesis
    using h1 h2 h3 setConfigs_rejects_unknown_field [OF h1 h2]
    by (simp add: known_keys_def key_defs u_def)
qed

lemma assign_deref:
  "deref (snd (assign key v cw)) (fst (assign key v cw)) = fmupd key v (deref (snd cw) (fst cw))"
  by (cases cw; cases "fst cw"; simp)

lemma assign_frame:
  "config_file (snd (assign key v cw)) = config_file (snd cw)"
  "env (snd (assign key v cw)) = env (snd cw)"
  "files (snd (assign key v cw)) = files (snd cw)"
  by (cases cw; cases "fst cw"; simp)+

lemma fold_assign_lookup:
  "key \<notin> fst ` set keyValues \<Longrightarrow>
   fmlookup (deref (snd (fold (\<lambda>(key, v). assign key v) keyValues cw))
                   (fst (fold (\<lambda>(key, v). assign key v) keyValues cw))) key =
   fmlookup (deref (snd cw) (fst cw)) key"
proof (induction keyValues arbitrary: cw)
  case Nil
  then show ?case by simp
next
  case (Cons kv keyValues)
  obtain k v where kv: "kv = (k, v)" by (cases kv)
  from Cons.prems kv have "key \<noteq> k" "key \<notin> fst ` set keyValues" by auto
  then show ?case
    using Cons.IH [of "assign k v cw"] by (simp add: kv assign_deref)
qed

lemma loaded_readConfigFile:
  "readConfigFile w = (Inr config, w1) \<Longrightarrow> loaded w = Some (deref w1 config)"
  by (simp add: loaded_def)

text \<open>
  The keys of \<^verbatim>\<open>DEFAULT_CONFIG\<close> are the four fields in every world the module can reach:
  \<^verbatim>\<open>readConfigFile\<close> and \<^verbatim>\<open>setConfigs\<close> assign to fields it has already.
\<close>

lemma fold_assign_default_dom:
  "\<forall>key\<in>fst ` set keyValues. key |\<in>| fmdom (DEFAULT_CONFIG (snd cw)) \<Longrightarrow>
   fmdom (DEFAULT_CONFIG (snd (fold (\<lambda>(key, v). assign key v) keyValues cw))) =
   fmdom (DEFAULT_CONFIG (snd cw))"
proof (induction keyValues arbitrary: cw)
  case Nil
  then show ?case by simp
next
  case (Cons kv keyValues)
  obtain k v where kv: "kv = (k, v)" by (cases kv)
  from Cons.prems kv have k: "k |\<in>| fmdom (DEFAULT_CONFIG (snd cw))" by simp
  then have d: "fmdom (DEFAULT_CONFIG (snd (assign k v cw))) = fmdom (DEFAULT_CONFIG (snd cw))"
    by (cases cw; cases "fst cw") auto
  with Cons.prems have "\<forall>key\<in>fst ` set keyValues. key |\<in>| fmdom (DEFAULT_CONFIG (snd (assign k v cw)))"
    by simp
  from Cons.IH [OF this] d show ?case by (simp add: kv)
qed

lemma setConfigs_default_dom:
  assumes "fmdom (DEFAULT_CONFIG w) = known_keys"
  shows "fmdom (DEFAULT_CONFIG (snd (setConfigs keyValues w))) = known_keys"
proof (cases "readConfigFile w")
  case (Pair res w1)
  have w1: "w1 = snd (readConfigFile w)" using Pair by simp
  have dom1: "fmdom (DEFAULT_CONFIG w1) = known_keys"
    unfolding w1 using assms by (rule readConfigFile_default_dom)
  show ?thesis
  proof (cases res)
    case (Inl e)
    with Pair dom1 show ?thesis by (simp add: setConfigs_def)
  next
    case (Inr config)
    show ?thesis
    proof (cases "validateKeys (DEFAULT_CONFIG w1) (map fst keyValues)")
      case (Some e)
      with Pair Inr dom1 show ?thesis by (simp add: setConfigs_def)
    next
      case None
      then have "\<forall>key\<in>fst ` set keyValues. key |\<in>| fmdom (DEFAULT_CONFIG (snd (config, w1)))"
        by (simp add: validateKeys_None)
      from fold_assign_default_dom [OF this] dom1
      have "fmdom (DEFAULT_CONFIG (snd (fold (\<lambda>(key, v). assign key v) keyValues (config, w1)))) =
              known_keys"
        by simp
      with Pair Inr None show ?thesis by (simp add: setConfigs_def split_beta)
    qed
  qed
qed

text \<open>
  C2, as amended. \<^verbatim>\<open>setConfigs\<close> writes the environment back: it persists the configuration
  that \<^verbatim>\<open>readConfigFile\<close> returns, overrides included, with the updates applied. After a
  call that succeeds, the persisted value of a field the update list does not name is the
  value of the field's environment variable when that variable is set and not empty;
  otherwise it is the value the persisted record had for the field, or the value of
  \<^verbatim>\<open>DEFAULT_CONFIG\<close> where the record had none.
\<close>

theorem setConfigs_persists_loaded:
  assumes "fst (setConfigs keyValues w) = None" and "key \<notin> fst ` set keyValues"
  shows "persisted_value (snd (setConfigs keyValues w)) key =
           (case env_override w key of
              Some v \<Rightarrow> Some (JStr v)
            | None \<Rightarrow> (case persisted_value w key of
                         Some v \<Rightarrow> Some v
                       | None \<Rightarrow> fmlookup (DEFAULT_CONFIG w) key))"
proof (cases "readConfigFile w")
  case (Pair res w1)
  show ?thesis
  proof (cases res)
    case (Inl e)
    with Pair assms(1) show ?thesis by (simp add: setConfigs_def)
  next
    case (Inr config)
    with Pair have "\<not> (\<exists>e. fst (readConfigFile w) = Inl e)" by simp
    then have ok: "config_file w \<noteq> Unparsable" by (simp add: readConfigFile_fails)
    from Pair Inr have l: "loaded w = Some (deref w1 config)"
      by (simp add: loaded_readConfigFile)
    from Pair Inr assms(1)
    have v: "validateKeys (DEFAULT_CONFIG w1) (map fst keyValues) = None"
      by (simp add: setConfigs_def split: option.splits)
    define cw where "cw = fold (\<lambda>(key, v). assign key v) keyValues (config, w1)"
    from Pair Inr v
    have "snd (setConfigs keyValues w) =
            (snd cw)\<lparr>config_file := Parsed (JObj (deref (snd cw) (fst cw)))\<rparr>"
      by (simp add: setConfigs_def cw_def split_beta)
    then have "persisted_value (snd (setConfigs keyValues w)) key =
                 fmlookup (deref (snd cw) (fst cw)) key"
      by (simp add: persisted_value_def)
    also have "\<dots> = fmlookup (deref w1 config) key"
      unfolding cw_def using fold_assign_lookup [OF assms(2), of "(config, w1)"] by simp
    finally show ?thesis
      using loaded_lookup [OF ok] l by auto
  qed
qed

lemma cleanUpTemplates_typed:
  assumes "fmlookup config templates = Some (JObj t)"
    and "fmpred (\<lambda>templateName templatePath. is_path templatePath) t"
  shows "cleanUpTemplates w config =
           Some (fmupd templates
                  (JObj (fmrestrict_set
                     {name. \<exists>p. fmlookup t name = Some (JStr p) \<and> p \<in> dom (files w)} t))
                  config)"
proof -
  have "fmfilter (\<lambda>templateName.
            case fmlookup t templateName of
              Some templatePath \<Rightarrow> file_exists w templatePath
            | None \<Rightarrow> False) t =
        fmrestrict_set {name. \<exists>p. fmlookup t name = Some (JStr p) \<and> p \<in> dom (files w)} t"
    by (rule fmap_ext) (auto simp add: file_exists_def split: option.splits json.splits)
  with assms show ?thesis
    by (simp add: cleanUpTemplates_def)
qed

lemma cleanUpTemplates_Some:
  assumes "cleanUpTemplates w config = Some config'"
  obtains t where "fmlookup config templates = Some (JObj t)"
    and "fmpred (\<lambda>templateName templatePath. is_path templatePath) t"
  using assms
  by (auto simp add: cleanUpTemplates_def split: option.splits json.splits if_splits)

text \<open>
  C10. On a configuration whose templates are a mapping from names to paths,
  \<^verbatim>\<open>cleanUpTemplates\<close> changes the field \<^verbatim>\<open>templates\<close> only: every other field of the result,
  known or not, is the argument's, and the templates of the result are the argument's
  restricted to the names whose path is the path of a file.
\<close>

theorem cleanUpTemplates_frame:
  assumes "fmlookup config templates = Some (JObj t)"
    and "fmpred (\<lambda>templateName templatePath. is_path templatePath) t"
  shows "\<exists>config'. cleanUpTemplates w config = Some config' \<and>
           (\<forall>key. key \<noteq> templates \<longrightarrow> fmlookup config' key = fmlookup config key) \<and>
           fmlookup config' templates =
             Some (JObj (fmrestrict_set
                    {name. \<exists>p. fmlookup t name = Some (JStr p) \<and> p \<in> dom (files w)} t))"
  by (simp add: cleanUpTemplates_typed [OF assms])

lemmas store_eval =
  initial_world_def DEFAULT_CONFIG_literal_def key_defs u_def loaded_def readConfigFile_def
  overrides_def override_def setConfigs_def persisted_value_def has_default_def cleanUpTemplates_def
  file_exists_def is_path_def known_keys_def env_override_def

theorem setConfigs_persists_loaded_witness:
  "fst (setConfigs [(model, JStr (u ''x''))]
         (initial_world (u ''/t'') (Parsed (JObj (fmap_of_list [(OPENAI_API_KEY, JStr (u ''a''))])))
            Map.empty Map.empty)) = None \<and>
   OPENAI_API_KEY \<notin> fst ` set [(model, JStr (u ''x''))] \<and>
   persisted_value (snd (setConfigs [(model, JStr (u ''x''))]
         (initial_world (u ''/t'') (Parsed (JObj (fmap_of_list [(OPENAI_API_KEY, JStr (u ''a''))])))
            Map.empty Map.empty))) OPENAI_API_KEY = Some (JStr (u ''a''))"
proof -
  let ?w = "initial_world (u ''/t'') (Parsed (JObj (fmap_of_list [(OPENAI_API_KEY, JStr (u ''a''))])))
            Map.empty Map.empty"
  have h1: "fst (setConfigs [(model, JStr (u ''x''))] ?w) = None"
    by (simp add: store_eval)
  have h2: "OPENAI_API_KEY \<notin> fst ` set [(model, JStr (u ''x''))]"
    by (simp add: key_defs u_def)
  have e: "env_override ?w OPENAI_API_KEY = None"
    by (simp add: store_eval)
  have p: "persisted_value ?w OPENAI_API_KEY = Some (JStr (u ''a''))"
    by (simp add: store_eval)
  have "persisted_value (snd (setConfigs [(model, JStr (u ''x''))] ?w)) OPENAI_API_KEY =
          Some (JStr (u ''a''))"
    using setConfigs_persists_loaded [OF h1 h2] by (simp only: e p option.case)
  with h1 h2 show ?thesis by blast
qed

text \<open>
  C2 as stated fails: the persisted api key is \<^verbatim>\<open>"a"\<close>, the environment's is \<^verbatim>\<open>"b"\<close>, the
  update names the model only, and the api key persisted afterwards is \<^verbatim>\<open>"b"\<close>.
\<close>

theorem setConfigs_writes_environment_counterexample:
  "persisted_value
     (initial_world (u ''/t'') (Parsed (JObj (fmap_of_list [(OPENAI_API_KEY, JStr (u ''a''))])))
        [OPENAI_API_KEY \<mapsto> u ''b''] Map.empty) OPENAI_API_KEY = Some (JStr (u ''a'')) \<and>
   OPENAI_API_KEY \<notin> fst ` set [(model, JStr (u ''x''))] \<and>
   fst (setConfigs [(model, JStr (u ''x''))]
     (initial_world (u ''/t'') (Parsed (JObj (fmap_of_list [(OPENAI_API_KEY, JStr (u ''a''))])))
        [OPENAI_API_KEY \<mapsto> u ''b''] Map.empty)) = None \<and>
   persisted_value (snd (setConfigs [(model, JStr (u ''x''))]
     (initial_world (u ''/t'') (Parsed (JObj (fmap_of_list [(OPENAI_API_KEY, JStr (u ''a''))])))
        [OPENAI_API_KEY \<mapsto> u ''b''] Map.empty))) OPENAI_API_KEY = Some (JStr (u ''b''))"
  by (simp add: store_eval)

theorem cleanUpTemplates_frame_witness:
  "fmlookup (fmap_of_list [(model, JStr (u ''m'')),
       (templates, JObj (fmap_of_list [(default, JStr (u ''/t'')), (u ''gone'', JStr (u ''/g''))]))])
     templates =
     Some (JObj (fmap_of_list [(default, JStr (u ''/t'')), (u ''gone'', JStr (u ''/g''))])) \<and>
   fmpred (\<lambda>templateName templatePath. is_path templatePath)
     (fmap_of_list [(default, JStr (u ''/t'')), (u ''gone'', JStr (u ''/g''))]) \<and>
   (\<exists>config' t'.
      cleanUpTemplates (initial_world (u ''/t'') Absent Map.empty [u ''/t'' \<mapsto> u ''body''])
        (fmap_of_list [(model, JStr (u ''m'')),
          (templates, JObj (fmap_of_list [(default, JStr (u ''/t'')), (u ''gone'', JStr (u ''/g''))]))])
        = Some config' \<and>
      fmlookup config' model = Some (JStr (u ''m'')) \<and>
      fmlookup config' templates = Some (JObj t') \<and>
      fmlookup t' default = Some (JStr (u ''/t'')) \<and>
      fmlookup t' (u ''gone'') = None)"
proof -
  let ?t = "fmap_of_list [(default, JStr (u ''/t'')), (u ''gone'', JStr (u ''/g''))]"
  let ?c = "fmap_of_list [(model, JStr (u ''m'')), (templates, JObj ?t)]"
  let ?w = "initial_world (u ''/t'') Absent Map.empty [u ''/t'' \<mapsto> u ''body'']"
  have h1: "fmlookup ?c templates = Some (JObj ?t)"
    by (simp add: key_defs u_def)
  have h2: "fmpred (\<lambda>templateName templatePath. is_path templatePath) ?t"
    by (simp add: fmpred_iff is_path_def key_defs u_def)
  from cleanUpTemplates_frame [OF h1 h2, of ?w]
  obtain config' where c: "cleanUpTemplates ?w ?c = Some config'"
    and f: "\<forall>key. key \<noteq> templates \<longrightarrow> fmlookup config' key = fmlookup ?c key"
    and t: "fmlookup config' templates =
             Some (JObj (fmrestrict_set
                    {name. \<exists>p. fmlookup ?t name = Some (JStr p) \<and> p \<in> dom (files ?w)} ?t))"
    by blast
  have m: "fmlookup config' model = Some (JStr (u ''m''))"
    using f by (simp add: key_defs u_def)
  let ?t' = "fmrestrict_set {name. \<exists>p. fmlookup ?t name = Some (JStr p) \<and> p \<in> dom (files ?w)} ?t"
  have d: "fmlookup ?t' default = Some (JStr (u ''/t''))"
    by (simp add: initial_world_def key_defs u_def)
  have g: "fmlookup ?t' (u ''gone'') = None"
    by (simp add: initial_world_def key_defs u_def)
  from h1 h2 c m t d g show ?thesis by blast
qed

text \<open>
  C6, as amended. In a process whose \<^verbatim>\<open>DEFAULT_CONFIG\<close> still is the object literal,
  \<^verbatim>\<open>readConfigFile\<close> does not fail when the persisted file is absent, nor when it parses.
  A field of the configuration it returns holds the value of the field's environment
  variable when that is set and not empty, otherwise the value the persisted record has
  for the field, otherwise the built-in default. With the file absent this is the built-in
  defaults overlaid with the environment: exactly the built-in defaults when no variable
  overrides a field.
\<close>

theorem readConfigFile_merge:
  assumes "DEFAULT_CONFIG w = DEFAULT_CONFIG_literal template_path"
    and "config_file w \<noteq> Unparsable"
  shows "\<exists>config. loaded w = Some config \<and>
           (\<forall>key. fmlookup config key =
              (case env_override w key of
                 Some v \<Rightarrow> Some (JStr v)
               | None \<Rightarrow> (case persisted_value w key of
                            Some v \<Rightarrow> Some v
                          | None \<Rightarrow> fmlookup (DEFAULT_CONFIG_literal template_path) key))) \<and>
           (config_file w = Absent \<and> (\<forall>key. env_override w key = None) \<longrightarrow>
              config = DEFAULT_CONFIG_literal template_path)"
proof -
  from loaded_lookup [OF assms(2)] obtain config where l: "loaded w = Some config"
    and k: "\<forall>key. fmlookup config key =
              (case env_override w key of
                 Some v \<Rightarrow> Some (JStr v)
               | None \<Rightarrow> (case persisted_value w key of
                            Some v \<Rightarrow> Some v
                          | None \<Rightarrow> fmlookup (DEFAULT_CONFIG w) key))"
    by blast
  note k' = k [unfolded assms(1)]
  have "config = DEFAULT_CONFIG_literal template_path"
    if "config_file w = Absent" "\<forall>key. env_override w key = None"
    using that k' by (intro fmap_ext) (simp add: persisted_value_def)
  with l k' show ?thesis by blast
qed

theorem readConfigFile_merge_witness:
  "DEFAULT_CONFIG (initial_world (u ''/t'') (Parsed (JObj (fmap_of_list [(model, JStr (u ''x''))])))
       [OPENAI_API_KEY \<mapsto> u ''b''] Map.empty) = DEFAULT_CONFIG_literal (u ''/t'') \<and>
   config_file (initial_world (u ''/t'') (Parsed (JObj (fmap_of_list [(model, JStr (u ''x''))])))
       [OPENAI_API_KEY \<mapsto> u ''b''] Map.empty) \<noteq> Unparsable \<and>
   (\<exists>config. loaded (initial_world (u ''/t'') (Parsed (JObj (fmap_of_list [(model, JStr (u ''x''))])))
       [OPENAI_API_KEY \<mapsto> u ''b''] Map.empty) = Some config \<and>
      fmlookup config model = Some (JStr (u ''x'')) \<and>
      fmlookup config OPENAI_API_KEY = Some (JStr (u ''b'')) \<and>
      fmlookup config OPENAI_API_BASE = Some (JStr (u ''https://api.openai.com/v1'')) \<and>
      fmlookup config templates = Some (JObj (fmap_of_list [(default, JStr (u ''/t''))])))"
proof -
  let ?w = "initial_world (u ''/t'') (Parsed (JObj (fmap_of_list [(model, JStr (u ''x''))])))
       [OPENAI_API_KEY \<mapsto> u ''b''] Map.empty"
  have h1: "DEFAULT_CONFIG ?w = DEFAULT_CONFIG_literal (u ''/t'')"
    by (simp add: initial_world_def)
  have h2: "config_file ?w \<noteq> Unparsable"
    by (simp add: initial_world_def)
  from readConfigFile_merge [OF h1 h2]
  obtain config where l: "loaded ?w = Some config"
    and k: "\<And>key. fmlookup config key =
              (case env_override ?w key of
                 Some v \<Rightarrow> Some (JStr v)
               | None \<Rightarrow> (case persisted_value ?w key of
                            Some v \<Rightarrow> Some v
                          | None \<Rightarrow> fmlookup (DEFAULT_CONFIG_literal (u ''/t'')) key))"
    by blast
  have "fmlookup config model = Some (JStr (u ''x''))"
    unfolding k by (simp add: store_eval)
  moreover have "fmlookup config OPENAI_API_KEY = Some (JStr (u ''b''))"
    unfolding k by (simp add: store_eval)
  moreover have "fmlookup config OPENAI_API_BASE = Some (JStr (u ''https://api.openai.com/v1''))"
    unfolding k by (simp add: store_eval)
  moreover have "fmlookup config templates = Some (JObj (fmap_of_list [(default, JStr (u ''/t''))]))"
    unfolding k by (simp add: store_eval)
  ultimately show ?thesis using h1 h2 l by blast
qed

text \<open>
  C6 as stated fails: with the file absent and the api key set in the environment, what
  \<^verbatim>\<open>readConfigFile\<close> returns is not the built-in defaults.
\<close>

theorem readConfigFile_absent_counterexample:
  "config_file (initial_world (u ''/t'') Absent [OPENAI_API_KEY \<mapsto> u ''b''] Map.empty) = Absent \<and>
   loaded (initial_world (u ''/t'') Absent [OPENAI_API_KEY \<mapsto> u ''b''] Map.empty) \<noteq>
     Some (DEFAULT_CONFIG_literal (u ''/t'')) \<and>
   map_option (\<lambda>config. fmlookup config OPENAI_API_KEY)
     (loaded (initial_world (u ''/t'') Absent [OPENAI_API_KEY \<mapsto> u ''b''] Map.empty)) =
     Some (Some (JStr (u ''b''))) \<and>
   fmlookup (DEFAULT_CONFIG_literal (u ''/t'')) OPENAI_API_KEY = Some (JStr [])"
proof -
  let ?w = "initial_world (u ''/t'') Absent [OPENAI_API_KEY \<mapsto> u ''b''] Map.empty"
  have a: "config_file ?w = Absent" by (simp add: initial_world_def)
  have b: "map_option (\<lambda>config. fmlookup config OPENAI_API_KEY) (loaded ?w) =
             Some (Some (JStr (u ''b'')))"
    by (simp add: store_eval)
  have c: "fmlookup (DEFAULT_CONFIG_literal (u ''/t'')) OPENAI_API_KEY = Some (JStr [])"
    by (simp add: store_eval)
  have "loaded ?w \<noteq> Some (DEFAULT_CONFIG_literal (u ''/t''))"
  proof
    assume "loaded ?w = Some (DEFAULT_CONFIG_literal (u ''/t''))"
    with b c show False by (simp add: u_def)
  qed
  with a b c show ?thesis by blast
qed

lemma env_override_templates: "env_override w templates = None"
  using keys_distinct by (simp add: env_override_def)

lemma loaded_Some_parsable: "loaded w = Some config \<Longrightarrow> config_file w \<noteq> Unparsable"
  by (auto simp add: loaded_def readConfigFile_unfold)

lemma loaded_has_default:
  assumes "loaded w = Some config"
  shows "has_default config \<longleftrightarrow>
         (case persisted_value w templates of
            Some v \<Rightarrow> (case v of JObj t \<Rightarrow> default |\<in>| fmdom t | _ \<Rightarrow> False)
          | None \<Rightarrow> has_default (DEFAULT_CONFIG w))"
proof -
  from loaded_lookup [OF loaded_Some_parsable [OF assms]] assms
  have "fmlookup config templates =
          (case persisted_value w templates of
             Some v \<Rightarrow> Some v
           | None \<Rightarrow> fmlookup (DEFAULT_CONFIG w) templates)"
    by (auto simp add: env_override_templates)
  then show ?thesis
    by (simp add: has_default_def split: option.splits)
qed

lemma cleanUpTemplates_has_default:
  assumes "cleanUpTemplates w config = Some config'"
  shows "has_default config' \<longleftrightarrow>
         (\<exists>t p. fmlookup config templates = Some (JObj t) \<and>
                fmlookup t default = Some (JStr p) \<and> p \<in> dom (files w))"
proof -
  from assms obtain t where t: "fmlookup config templates = Some (JObj t)"
    and p: "fmpred (\<lambda>templateName templatePath. is_path templatePath) t"
    by (rule cleanUpTemplates_Some)
  from cleanUpTemplates_typed [OF t p, of w] assms
  have "fmlookup config' templates =
          Some (JObj (fmrestrict_set
                 {name. \<exists>p. fmlookup t name = Some (JStr p) \<and> p \<in> dom (files w)} t))"
    by auto
  then have "has_default config' \<longleftrightarrow>
               (\<exists>p. fmlookup t default = Some (JStr p) \<and> p \<in> dom (files w))"
    by (auto simp add: has_default_def fmlookup_dom_iff)
  with t show ?thesis by simp
qed

text \<open>
  C1, as amended. The configuration \<^verbatim>\<open>readConfigFile\<close> returns has the key \<^verbatim>\<open>"default"\<close>
  among its templates exactly when the \<^verbatim>\<open>templates\<close> of the persisted record, if the record
  has that field, are a mapping with the key; and, if the file is absent or its record has
  no such field, when the templates of \<^verbatim>\<open>DEFAULT_CONFIG\<close> have it, as the built-in ones do.
  The configuration \<^verbatim>\<open>cleanUpTemplates\<close> returns has the key exactly when its argument has
  it with the path of a file that exists.
\<close>

theorem templates_default_iff:
  "(loaded w = Some config \<longrightarrow>
      (has_default config \<longleftrightarrow>
         (case persisted_value w templates of
            Some v \<Rightarrow> (case v of JObj t \<Rightarrow> default |\<in>| fmdom t | _ \<Rightarrow> False)
          | None \<Rightarrow> has_default (DEFAULT_CONFIG w)))) \<and>
   (cleanUpTemplates w config = Some config' \<longrightarrow>
      (has_default config' \<longleftrightarrow>
         (\<exists>t p. fmlookup config templates = Some (JObj t) \<and>
                fmlookup t default = Some (JStr p) \<and> p \<in> dom (files w))))"
  using loaded_has_default cleanUpTemplates_has_default by blast

lemma has_default_literal: "has_default (DEFAULT_CONFIG_literal template_path)"
  by (simp add: has_default_def DEFAULT_CONFIG_literal_def keys_distinct)

lemma literal_templates:
  "fmlookup (DEFAULT_CONFIG_literal template_path) templates =
     Some (JObj (fmap_of_list [(default, JStr template_path)]))"
  by (simp add: DEFAULT_CONFIG_literal_def keys_distinct)

lemma literal_templates_typed:
  "fmpred (\<lambda>templateName templatePath. is_path templatePath)
     (fmap_of_list [(default, JStr template_path)])"
  by (simp add: fmpred_iff is_path_def)

lemma loaded_initial_no_env:
  "loaded (initial_world template_path Absent Map.empty texts) =
     Some (DEFAULT_CONFIG_literal template_path)"
  by (simp add: initial_world_def loaded_def readConfigFile_def overrides_def override_def)

theorem templates_default_iff_witness:
  "loaded (initial_world (u ''/t'') Absent Map.empty [u ''/t'' \<mapsto> u ''body'']) =
     Some (DEFAULT_CONFIG_literal (u ''/t'')) \<and>
   has_default (DEFAULT_CONFIG_literal (u ''/t'')) \<and>
   (\<exists>config'. cleanUpTemplates (initial_world (u ''/t'') Absent Map.empty [u ''/t'' \<mapsto> u ''body''])
                 (DEFAULT_CONFIG_literal (u ''/t'')) = Some config' \<and> has_default config')"
proof -
  let ?w = "initial_world (u ''/t'') Absent Map.empty [u ''/t'' \<mapsto> u ''body'']"
  let ?c = "DEFAULT_CONFIG_literal (u ''/t'')"
  have l: "loaded ?w = Some ?c"
    by (rule loaded_initial_no_env)
  obtain config' where c: "cleanUpTemplates ?w ?c = Some config'"
    using cleanUpTemplates_typed [OF literal_templates literal_templates_typed] by blast
  have f: "u ''/t'' \<in> dom (files ?w)"
    by (simp add: initial_world_def)
  have e: "\<exists>t p. fmlookup ?c templates = Some (JObj t) \<and>
                fmlookup t default = Some (JStr p) \<and> p \<in> dom (files ?w)"
    using literal_templates [of "u ''/t''"] f by simp
  note T = templates_default_iff [of ?w ?c config']
  have "has_default config' \<longleftrightarrow>
         (\<exists>t p. fmlookup ?c templates = Some (JObj t) \<and>
                fmlookup t default = Some (JStr p) \<and> p \<in> dom (files ?w))"
    using conjunct2 [OF T] c by (rule mp)
  then have h: "has_default config'"
    using e by (rule iffD2)
  have "\<exists>config'. cleanUpTemplates ?w ?c = Some config' \<and> has_default config'"
    using c h by (intro exI conjI)
  with l has_default_literal [of "u ''/t''"] show ?thesis
    by (intro conjI)
qed

text \<open>
  C1 as stated fails: a persisted record \<^verbatim>\<open>{"templates": {}}\<close> is loaded with no template
  at all, and \<^verbatim>\<open>cleanUpTemplates\<close> deletes the default template of the built-in
  configuration when its file does not exist.
\<close>

theorem templates_default_counterexample:
  "map_option has_default
     (loaded (initial_world (u ''/t'') (Parsed (JObj (fmap_of_list [(templates, JObj fmempty)])))
        Map.empty [u ''/t'' \<mapsto> u ''body''])) = Some False \<and>
   map_option has_default
     (cleanUpTemplates (initial_world (u ''/t'') Absent Map.empty Map.empty)
        (DEFAULT_CONFIG_literal (u ''/t''))) = Some False"
proof -
  let ?w = "initial_world (u ''/t'') (Parsed (JObj (fmap_of_list [(templates, JObj fmempty)])))
        Map.empty [u ''/t'' \<mapsto> u ''body'']"
  have "config_file ?w \<noteq> Unparsable" by (simp add: initial_world_def)
  from loaded_lookup [OF this] obtain config where l: "loaded ?w = Some config" by blast
  have "persisted_value ?w templates = Some (JObj fmempty)"
    by (simp add: initial_world_def persisted_value_def)
  with loaded_has_default [OF l] have "\<not> has_default config" by simp
  with l have a: "map_option has_default (loaded ?w) = Some False" by simp
  let ?v = "initial_world (u ''/t'') Absent Map.empty Map.empty"
  obtain config' where c: "cleanUpTemplates ?v (DEFAULT_CONFIG_literal (u ''/t'')) = Some config'"
    using cleanUpTemplates_typed [OF literal_templates literal_templates_typed] by blast
  have "files ?v = Map.empty" by (simp add: initial_world_def)
  with cleanUpTemplates_has_default [OF c] have "\<not> has_default config'" by simp
  with c have b: "map_option has_default
     (cleanUpTemplates ?v (DEFAULT_CONFIG_literal (u ''/t''))) = Some False" by simp
  from a b show ?thesis by blast
qed

section \<open>The generation pipeline: lemmas\<close>

lemma only_stderr_trace [simp]: "only_stderr (trace verbose text)"
  by (simp add: only_stderr_def trace_def)

lemma only_stderr_append [simp]: "only_stderr (a @ b) \<longleftrightarrow> only_stderr a \<and> only_stderr b"
  by (simp add: only_stderr_def)

lemma only_stderr_ErrResponse [simp]: "only_stderr [ErrResponse]"
  by (simp add: only_stderr_def)

lemma only_stderr_Nil [simp]: "only_stderr []"
  by (simp add: only_stderr_def)

lemma read_template_files:
  "files w1 = files w \<Longrightarrow>
   read_template verbose x w1 config path = read_template verbose x w config path"
  by (simp add: read_template_def split: option.splits json.splits)

lemma resolve_template_files:
  "files w1 = files w \<Longrightarrow>
   resolve_template verbose templateName x w1 config =
   resolve_template verbose templateName x w config"
  by (simp add: resolve_template_def read_template_files [of w1 w]
        split: option.splits json.splits)

lemma run_loaded:
  "run verbose templateName x w =
     (case loaded w of
        None \<Rightarrow> [Rejected]
      | Some config \<Rightarrow>
          trace verbose (u ''Configuration loaded successfully.'') @
          resolve_template verbose templateName x w config)"
proof (cases "readConfigFile w")
  case (Pair res w1)
  then have "files w1 = files w"
    using readConfigFile_frame(3) [of w] by simp
  with Pair show ?thesis
    by (cases res) (simp_all add: run_def loaded_def resolve_template_files [of w1 w])
qed

lemma run_unknown_template:
  assumes "loaded w = Some config"
    and "fmlookup config templates = Some (JObj t)"
    and "name \<noteq> []" and "name |\<notin>| fmdom t"
  shows "run verbose (Some name) x w =
           trace verbose (u ''Configuration loaded successfully.'') @
           [Err (u ''Error: Template '' @ 0x27 # name @ 0x27 #
                 u '' does not exist in the configuration.''), Exit 1]"
  using assms by (simp add: run_loaded resolve_template_def)

lemma run_resolved:
  assumes "loaded w = Some config"
    and "resolved_path config templateName = Some (JStr p)"
  shows "run verbose templateName x w =
           trace verbose (u ''Configuration loaded successfully.'') @
           trace verbose (case templateName of
                    Some name \<Rightarrow> if name = [] then u ''Using default template.''
                                 else u ''Using template: '' @ name
                  | None \<Rightarrow> u ''Using default template.'') @
           read_template verbose x w config (Some (JStr p))"
proof -
  from assms(2) obtain t where t: "fmlookup config templates = Some (JObj t)"
    by (auto simp add: resolved_path_def split: option.splits json.splits)
  show ?thesis
  proof (cases templateName)
    case None
    with assms t show ?thesis
      by (simp add: run_loaded resolve_template_def resolved_path_def)
  next
    case (Some name)
    show ?thesis
    proof (cases "name = []")
      case True
      with Some assms t show ?thesis
        by (simp add: run_loaded resolve_template_def resolved_path_def)
    next
      case False
      with Some assms(2) t have "fmlookup t name = Some (JStr p)"
        by (simp add: resolved_path_def)
      moreover from this have "name |\<in>| fmdom t"
        by (simp add: fmlookup_dom_iff)
      ultimately show ?thesis
        using Some False assms(1) t by (simp add: run_loaded resolve_template_def)
    qed
  qed
qed

lemma run_missing_file:
  assumes "loaded w = Some config"
    and "resolved_path config templateName = Some (JStr p)"
    and "files w p = None"
  shows "run verbose templateName x w =
           trace verbose (u ''Configuration loaded successfully.'') @
           trace verbose (case templateName of
                    Some name \<Rightarrow> if name = [] then u ''Using default template.''
                                 else u ''Using template: '' @ name
                  | None \<Rightarrow> u ''Using default template.'') @
           [Err (u ''Error: The template file '' @ 0x27 # p @ 0x27 # u '' does not exist.''), Exit 1]"
  using assms(3) by (simp add: run_resolved [OF assms(1,2)] read_template_def)

lemma run_credentials:
  assumes "loaded w = Some config"
    and "resolved_path config templateName = Some (JStr p)"
    and "files w p = Some template"
    and "pwd x = Returns out"
  shows "run verbose templateName x w =
           preamble verbose templateName p (trim out) @
           check_credentials verbose x config template (trim out)"
  using assms(3,4) by (simp add: run_resolved [OF assms(1,2)] read_template_def preamble_def)

text \<open>
  C5, as amended. The api key and the model are checked after the template has been
  resolved and read and the working directory determined. A run whose configuration has
  an empty api key or an empty model fails with the missing-credential line (the api key
  is checked first) or the missing-model line, provided the template resolves to a file
  that exists and the working directory is read. When the template name given is not in
  the configuration, or the file of the template does not exist, the run fails with that
  line instead, whatever the api key and the model.
\<close>

theorem credentials_checked_after_template:
  assumes "loaded w = Some config"
    and "\<not> truthy (fmlookup config OPENAI_API_KEY) \<or> \<not> truthy (fmlookup config model)"
  shows "(resolved_path config templateName = Some (JStr p) \<and> files w p = Some template \<and>
          pwd x = Returns out \<longrightarrow>
            run verbose templateName x w =
              preamble verbose templateName p (trim out) @
              [Err (if \<not> truthy (fmlookup config OPENAI_API_KEY) then u ''OPENAI_API_KEY is not set''
                    else u ''Model is not set''), Exit 1]) \<and>
         (fmlookup config templates = Some (JObj t) \<and> name \<noteq> [] \<and> name |\<notin>| fmdom t \<longrightarrow>
            run verbose (Some name) x w =
              trace verbose (u ''Configuration loaded successfully.'') @
              [Err (u ''Error: Template '' @ 0x27 # name @ 0x27 #
                    u '' does not exist in the configuration.''), Exit 1]) \<and>
         (resolved_path config templateName = Some (JStr p) \<and> files w p = None \<longrightarrow>
            run verbose templateName x w =
              trace verbose (u ''Configuration loaded successfully.'') @
              trace verbose (case templateName of
                    Some name \<Rightarrow> if name = [] then u ''Using default template.''
                                 else u ''Using template: '' @ name
                  | None \<Rightarrow> u ''Using default template.'') @
              [Err (u ''Error: The template file '' @ 0x27 # p @ 0x27 # u '' does not exist.''),
               Exit 1])"
proof (intro conjI impI)
  assume "resolved_path config templateName = Some (JStr p) \<and> files w p = Some template \<and>
          pwd x = Returns out"
  then show "run verbose templateName x w =
              preamble verbose templateName p (trim out) @
              [Err (if \<not> truthy (fmlookup config OPENAI_API_KEY) then u ''OPENAI_API_KEY is not set''
                    else u ''Model is not set''), Exit 1]"
    using assms by (auto simp add: run_credentials [OF assms(1)] check_credentials_def)
next
  assume "fmlookup config templates = Some (JObj t) \<and> name \<noteq> [] \<and> name |\<notin>| fmdom t"
  then show "run verbose (Some name) x w =
              trace verbose (u ''Configuration loaded successfully.'') @
              [Err (u ''Error: Template '' @ 0x27 # name @ 0x27 #
                    u '' does not exist in the configuration.''), Exit 1]"
    using run_unknown_template [OF assms(1)] by blast
next
  assume "resolved_path config templateName = Some (JStr p) \<and> files w p = None"
  then show "run verbose templateName x w =
              trace verbose (u ''Configuration loaded successfully.'') @
              trace verbose (case templateName of
                    Some name \<Rightarrow> if name = [] then u ''Using default template.''
                                 else u ''Using template: '' @ name
                  | None \<Rightarrow> u ''Using default template.'') @
              [Err (u ''Error: The template file '' @ 0x27 # p @ 0x27 # u '' does not exist.''),
               Exit 1]"
    using run_missing_file [OF assms(1)] by blast
qed


lemma resolved_path_literal:
  "resolved_path (DEFAULT_CONFIG_literal template_path) None = Some (JStr template_path)"
  by (simp add: resolved_path_def literal_templates)

lemma literal_api_key: "fmlookup (DEFAULT_CONFIG_literal template_path) OPENAI_API_KEY = Some (JStr [])"
  by (simp add: DEFAULT_CONFIG_literal_def)

lemma preamble_quiet: "preamble False templateName p target_dir = []"
  by (simp add: preamble_def trace_def)

theorem credentials_checked_after_template_witness:
  "loaded (initial_world (u ''/t'') Absent Map.empty [u ''/t'' \<mapsto> u ''Summarize: {{diff}}'']) =
     Some (DEFAULT_CONFIG_literal (u ''/t'')) \<and>
   \<not> truthy (fmlookup (DEFAULT_CONFIG_literal (u ''/t'')) OPENAI_API_KEY) \<and>
   run False None (scripted (u ''/repo'') (u ''+foo'') [Some (u ''1. fix: add foo'')])
     (initial_world (u ''/t'') Absent Map.empty [u ''/t'' \<mapsto> u ''Summarize: {{diff}}'']) =
     [Err (u ''OPENAI_API_KEY is not set''), Exit 1] \<and>
   run False (Some (u ''nope'')) (scripted (u ''/repo'') (u ''+foo'') [Some (u ''1. fix: add foo'')])
     (initial_world (u ''/t'') Absent Map.empty [u ''/t'' \<mapsto> u ''Summarize: {{diff}}'']) =
     [Err (u ''Error: Template '' @ 0x27 # u ''nope'' @ 0x27 #
           u '' does not exist in the configuration.''), Exit 1] \<and>
   loaded (initial_world (u ''/t'') Absent Map.empty Map.empty) =
     Some (DEFAULT_CONFIG_literal (u ''/t'')) \<and>
   run False None (scripted (u ''/repo'') (u ''+foo'') [Some (u ''1. fix: add foo'')])
     (initial_world (u ''/t'') Absent Map.empty Map.empty) =
     [Err (u ''Error: The template file '' @ 0x27 # u ''/t'' @ 0x27 # u '' does not exist.''), Exit 1]"
proof -
  let ?w = "initial_world (u ''/t'') Absent Map.empty [u ''/t'' \<mapsto> u ''Summarize: {{diff}}'']"
  let ?v = "initial_world (u ''/t'') Absent Map.empty Map.empty"
  let ?c = "DEFAULT_CONFIG_literal (u ''/t'')"
  let ?x = "scripted (u ''/repo'') (u ''+foo'') [Some (u ''1. fix: add foo'')]"
  have lw: "loaded ?w = Some ?c" by (rule loaded_initial_no_env)
  have lv: "loaded ?v = Some ?c" by (rule loaded_initial_no_env)
  have k: "\<not> truthy (fmlookup ?c OPENAI_API_KEY)" by (simp add: literal_api_key)
  then have h: "\<not> truthy (fmlookup ?c OPENAI_API_KEY) \<or> \<not> truthy (fmlookup ?c model)" ..
  have r: "resolved_path ?c None = Some (JStr (u ''/t''))" by (rule resolved_path_literal)
  have f: "files ?w (u ''/t'') = Some (u ''Summarize: {{diff}}'')" by (simp add: initial_world_def)
  have g: "files ?v (u ''/t'') = None" by (simp add: initial_world_def)
  have p: "pwd ?x = Returns (u ''/repo'')" by (simp add: scripted_def)
  have t: "fmlookup ?c templates = Some (JObj (fmap_of_list [(default, JStr (u ''/t''))]))"
    by (rule literal_templates)
  have n: "u ''nope'' \<noteq> []" "u ''nope'' |\<notin>| fmdom (fmap_of_list [(default, JStr (u ''/t''))])"
    by (simp_all add: key_defs u_def)
  note T = credentials_checked_after_template [OF lw h, of None "u ''/t''" "u ''Summarize: {{diff}}''"
      ?x "u ''/repo''" False "fmap_of_list [(default, JStr (u ''/t''))]" "u ''nope''"]
  note V = credentials_checked_after_template [OF lv h, of None "u ''/t''" "u ''Summarize: {{diff}}''"
      ?x "u ''/repo''" False "fmap_of_list [(default, JStr (u ''/t''))]" "u ''nope''"]
  have a: "run False None ?x ?w = [Err (u ''OPENAI_API_KEY is not set''), Exit 1]"
    using conjunct1 [OF T] r f p k by (simp add: preamble_quiet)
  have b: "run False (Some (u ''nope'')) ?x ?w =
     [Err (u ''Error: Template '' @ 0x27 # u ''nope'' @ 0x27 #
           u '' does not exist in the configuration.''), Exit 1]"
    using conjunct1 [OF conjunct2 [OF T]] t n by (simp add: trace_def)
  have c: "run False None ?x ?v =
     [Err (u ''Error: The template file '' @ 0x27 # u ''/t'' @ 0x27 # u '' does not exist.''), Exit 1]"
    using conjunct2 [OF conjunct2 [OF V]] r g by (simp add: trace_def)
  from lw k a b lv c show ?thesis by (intro conjI)
qed

text \<open>
  C5 as stated fails: the api key is empty and the template name is unknown, and the run
  fails with the unknown-template line, not with the missing-credential line.
\<close>

theorem credentials_checked_first_counterexample:
  "map_option (\<lambda>config. truthy (fmlookup config OPENAI_API_KEY))
     (loaded (initial_world (u ''/t'') Absent Map.empty [u ''/t'' \<mapsto> u ''Summarize: {{diff}}''])) =
     Some False \<and>
   run False (Some (u ''nope'')) (scripted (u ''/repo'') (u ''+foo'') [Some (u ''1. fix: add foo'')])
     (initial_world (u ''/t'') Absent Map.empty [u ''/t'' \<mapsto> u ''Summarize: {{diff}}'']) =
     [Err (u ''Error: Template '' @ 0x27 # u ''nope'' @ 0x27 #
           u '' does not exist in the configuration.''), Exit 1] \<and>
   run False (Some (u ''nope'')) (scripted (u ''/repo'') (u ''+foo'') [Some (u ''1. fix: add foo'')])
     (initial_world (u ''/t'') Absent Map.empty [u ''/t'' \<mapsto> u ''Summarize: {{diff}}'']) \<noteq>
     [Err (u ''OPENAI_API_KEY is not set''), Exit 1]"
proof -
  let ?w = "initial_world (u ''/t'') Absent Map.empty [u ''/t'' \<mapsto> u ''Summarize: {{diff}}'']"
  let ?c = "DEFAULT_CONFIG_literal (u ''/t'')"
  let ?x = "scripted (u ''/repo'') (u ''+foo'') [Some (u ''1. fix: add foo'')]"
  have lw: "loaded ?w = Some ?c" by (rule loaded_initial_no_env)
  have a: "map_option (\<lambda>config. truthy (fmlookup config OPENAI_API_KEY)) (loaded ?w) = Some False"
    by (simp add: lw literal_api_key)
  have n: "u ''nope'' \<noteq> []" "u ''nope'' |\<notin>| fmdom (fmap_of_list [(default, JStr (u ''/t''))])"
    by (simp_all add: key_defs u_def)
  have b: "run False (Some (u ''nope'')) ?x ?w =
     [Err (u ''Error: Template '' @ 0x27 # u ''nope'' @ 0x27 #
           u '' does not exist in the configuration.''), Exit 1]"
    using run_unknown_template [OF lw literal_templates n, of False ?x] by (simp add: trace_def)
  have c: "run False (Some (u ''nope'')) ?x ?w \<noteq> [Err (u ''OPENAI_API_KEY is not set''), Exit 1]"
    unfolding b by (simp add: u_def)
  from a b c show ?thesis by (intro conjI)
qed

subsection \<open>The second declaration\<close>

lemma read_template_redeclared_files:
  "files w1 = files w \<Longrightarrow>
   read_template_redeclared verbose x w1 config path =
   read_template_redeclared verbose x w config path"
  by (simp add: read_template_redeclared_def split: option.splits json.splits)

lemma resolve_template_redeclared_files:
  "files w1 = files w \<Longrightarrow>
   resolve_template_redeclared verbose templateName x w1 config =
   resolve_template_redeclared verbose templateName x w config"
  by (simp add: resolve_template_redeclared_def read_template_redeclared_files [of w1 w]
        split: option.splits json.splits)

lemma run_redeclared_loaded:
  "run_redeclared verbose templateName x w =
     (case loaded w of
        None \<Rightarrow> [Rejected]
      | Some config \<Rightarrow>
          debug verbose (u ''Configuration loaded successfully.'') @
          resolve_template_redeclared verbose templateName x w config)"
proof (cases "readConfigFile w")
  case (Pair res w1)
  then have "files w1 = files w"
    using readConfigFile_frame(3) [of w] by simp
  with Pair show ?thesis
    by (cases res)
      (simp_all add: run_redeclared_def loaded_def resolve_template_redeclared_files [of w1 w])
qed

lemma run_redeclared_unknown_template:
  assumes "loaded w = Some config"
    and "fmlookup config templates = Some (JObj t)"
    and "name \<noteq> []" and "name |\<notin>| fmdom t"
  shows "run_redeclared verbose (Some name) x w =
           debug verbose (u ''Configuration loaded successfully.'') @
           [Err (u ''Error: Template '' @ 0x27 # name @ 0x27 #
                 u '' does not exist in the configuration.''), Exit 1]"
  using assms by (simp add: run_redeclared_loaded resolve_template_redeclared_def)

lemma run_redeclared_resolved:
  assumes "loaded w = Some config"
    and "resolved_path config templateName = Some (JStr p)"
  shows "run_redeclared verbose templateName x w =
           debug verbose (u ''Configuration loaded successfully.'') @
           debug verbose (case templateName of
                    Some name \<Rightarrow> if name = [] then u ''Using default template.''
                                 else u ''Using template: '' @ name
                  | None \<Rightarrow> u ''Using default template.'') @
           read_template_redeclared verbose x w config (Some (JStr p))"
proof -
  from assms(2) obtain t where t: "fmlookup config templates = Some (JObj t)"
    by (auto simp add: resolved_path_def split: option.splits json.splits)
  show ?thesis
  proof (cases templateName)
    case None
    with assms t show ?thesis
      by (simp add: run_redeclared_loaded resolve_template_redeclared_def resolved_path_def)
  next
    case (Some name)
    show ?thesis
    proof (cases "name = []")
      case True
      with Some assms t show ?thesis
        by (simp add: run_redeclared_loaded resolve_template_redeclared_def resolved_path_def)
    next
      case False
      with Some assms(2) t have "fmlookup t name = Some (JStr p)"
        by (simp add: resolved_path_def)
      moreover from this have "name |\<in>| fmdom t"
        by (simp add: fmlookup_dom_iff)
      ultimately show ?thesis
        using Some False assms(1) t
        by (simp add: run_redeclared_loaded resolve_template_redeclared_def)
    qed
  qed
qed

lemma run_redeclared_missing_file:
  assumes "loaded w = Some config"
    and "resolved_path config templateName = Some (JStr p)"
    and "files w p = None"
  shows "run_redeclared verbose templateName x w =
           debug verbose (u ''Configuration loaded successfully.'') @
           debug verbose (case templateName of
                    Some name \<Rightarrow> if name = [] then u ''Using default template.''
                                 else u ''Using template: '' @ name
                  | None \<Rightarrow> u ''Using default template.'') @
           [Err (u ''Error: The template file '' @ 0x27 # p @ 0x27 # u '' does not exist.''), Exit 1]"
  using assms(3) by (simp add: run_redeclared_resolved [OF assms(1,2)] read_template_redeclared_def)

lemma run_redeclared_credentials:
  assumes "loaded w = Some config"
    and "resolved_path config templateName = Some (JStr p)"
    and "files w p = Some template"
    and "pwd x = Returns out"
  shows "run_redeclared verbose templateName x w =
           preamble_redeclared verbose templateName p (trim out) @
           check_credentials_redeclared verbose x config template (trim out)"
  using assms(3,4)
  by (simp add: run_redeclared_resolved [OF assms(1,2)] read_template_redeclared_def
        preamble_redeclared_def)

text \<open>
  The second declaration checks the api key and the model where the first does: after
  the template has been resolved and read and the working directory determined.
\<close>

lemma run_redeclared_missing_credentials:
  assumes "loaded w = Some config"
    and "\<not> truthy (fmlookup config OPENAI_API_KEY) \<or> \<not> truthy (fmlookup config model)"
    and "resolved_path config templateName = Some (JStr p)"
    and "files w p = Some template"
    and "pwd x = Returns out"
  shows "run_redeclared verbose templateName x w =
           preamble_redeclared verbose templateName p (trim out) @
           [Err (if \<not> truthy (fmlookup config OPENAI_API_KEY) then u ''OPENAI_API_KEY is not set''
                 else u ''Model is not set''), Exit 1]"
  using assms(2)
  by (auto simp add: run_redeclared_credentials [OF assms(1,3,4,5)] check_credentials_redeclared_def)

text \<open>
  Until the credentials have been checked, a run that is not verbose does the same under
  both declarations.
\<close>

lemma run_redeclared_quiet_prefix:
  assumes "loaded w = Some config"
    and "resolved_path config templateName = Some (JStr p)"
    and "files w p = Some template"
    and "pwd x = Returns out"
    and "\<not> truthy (fmlookup config OPENAI_API_KEY) \<or> \<not> truthy (fmlookup config model)"
  shows "run_redeclared False templateName x w = run False templateName x w"
  using assms(5)
  by (auto simp add: run_redeclared_credentials [OF assms(1-4)] run_credentials [OF assms(1-4)]
        check_credentials_redeclared_def check_credentials_def preamble_redeclared_def
        preamble_def debug_def trace_def)




end
